theory Spec2Isabelle
  imports Main
begin

section \<open>Data model (\<^verbatim>\<open>src/types.ts\<close>)\<close>

text \<open>
  The HTTP-mode interfaces of \<^verbatim>\<open>types.ts\<close>. A JavaScript \<^verbatim>\<open>number\<close> that holds a Unix
  timestamp is an \<open>int\<close> (\<^verbatim>\<open>Math.max\<close> and \<^verbatim>\<open>||\<close> treat every other finite number the
  same way; \<^verbatim>\<open>NaN\<close> is not a timestamp and has no place in this type), a \<^verbatim>\<open>bigint\<close> is an
  \<open>int\<close>, an optional field is an \<open>option\<close>.
\<close>

record OpenPondConfig =
  apiUrl :: string
  privateKey :: string
  agentName :: "string option"
  apiKey :: "string option"

record Message =
  messageId :: string
  fromAgentId :: string
  toAgentId :: string
  content :: string
  timestamp :: int
  conversationId :: "string option"
  replyTo :: "string option"

record Agent =
  address :: string
  name :: string
  metadata :: string
  reputation :: int
  isActive :: bool
  isBlocked :: bool
  registrationTime :: int

record SendMessageOptions =
  options_conversationId :: "string option"
  options_replyTo :: "string option"

section \<open>Errors, handlers and observable events\<close>

text \<open>
  A value that JavaScript can throw. \<open>AxiosError st\<close> is the rejection of an axios request,
  \<open>st\<close> being \<^verbatim>\<open>error.response?.status\<close> (\<open>None\<close> for a transport failure that has no
  response). \<open>Thrown\<close> is a thrown value that is not an instance of \<^verbatim>\<open>Error\<close>.
\<close>

datatype error =
    AxiosError "nat option"
  | SyntaxError string
  | TypeError string
  | Error string
  | Thrown string

fun isAxiosError :: "error \<Rightarrow> bool" where
  "isAxiosError (AxiosError st) = True"
| "isAxiosError e = False"

fun response_status :: "error \<Rightarrow> nat option" where
  "response_status (AxiosError st) = st"
| "response_status e = None"

fun instanceof_Error :: "error \<Rightarrow> bool" where
  "instanceof_Error (Thrown v) = False"
| "instanceof_Error e = True"

text \<open>
  A handler registered by the application is known to the client only through what a call
  of it does to the caller: it returns (\<open>None\<close>) or throws (\<open>Some e\<close>). A handler that
  calls back into the client is outside this model.
\<close>

type_synonym 'a handler = "'a \<Rightarrow> error option"

text \<open>The requests the client sends through its axios instance, with their parameters.\<close>

datatype request =
    POST_agents_register string "string option"
  | POST_messages string string string "SendMessageOptions option"
  | GET_messages string int
  | GET_agent string
  | GET_agents

text \<open>
  What the client does to the world, in program order: a request handed to axios, a call
  of a registered handler, an assignment to \<^verbatim>\<open>lastMessageTimestamp\<close>.
\<close>

datatype event =
    Http request
  | MessageCb Message
  | ErrorCb error
  | WatermarkSet int

section \<open>The part the two clients share\<close>

text \<open>
  The fields both \<^verbatim>\<open>OpenPondSDK\<close> classes declare. \<open>trace\<close> is not a field of the
  class: it is the log of events so far.
\<close>

record sdk =
  config :: OpenPondConfig
  messageCallback :: "Message handler option"
  errorCallback :: "error handler option"
  trace :: "event list"

definition emit :: "event \<Rightarrow> 'a sdk_scheme \<Rightarrow> 'a sdk_scheme" where
  "emit ev s = s\<lparr>trace := trace s @ [ev]\<rparr>"

definition onMessage :: "Message handler \<Rightarrow> 'a sdk_scheme \<Rightarrow> 'a sdk_scheme" where
  "onMessage callback s = s\<lparr>messageCallback := Some callback\<rparr>"

definition onError :: "error handler \<Rightarrow> 'a sdk_scheme \<Rightarrow> 'a sdk_scheme" where
  "onError callback s = s\<lparr>errorCallback := Some callback\<rparr>"

text \<open>
  \<^verbatim>\<open>this.messageCallback?.(message)\<close> and \<^verbatim>\<open>this.errorCallback?.(error)\<close>: nothing happens
  when no handler is registered; otherwise the handler is called, and what it throws, if
  anything, is thrown by the call.
\<close>

definition call_messageCallback ::
    "'a sdk_scheme \<Rightarrow> Message \<Rightarrow> 'a sdk_scheme \<times> error option" where
  "call_messageCallback s m =
     (case messageCallback s of
        None \<Rightarrow> (s, None)
      | Some h \<Rightarrow> (emit (MessageCb m) s, h m))"

definition call_errorCallback ::
    "'a sdk_scheme \<Rightarrow> error \<Rightarrow> 'a sdk_scheme \<times> error option" where
  "call_errorCallback s e =
     (case errorCallback s of
        None \<Rightarrow> (s, None)
      | Some h \<Rightarrow> (emit (ErrorCb e) s, h e))"

text \<open>
  \<^verbatim>\<open>this.errorCallback?.(error); throw error;\<close>, the body of the response interceptor's
  rejection handler and of the \<^verbatim>\<open>catch\<close> block of every public method. When the handler
  throws, its exception leaves the block instead of \<open>e\<close>.
\<close>

definition report_and_rethrow ::
    "'a sdk_scheme \<Rightarrow> error \<Rightarrow> 'a sdk_scheme \<times> (error + 'r)" where
  "report_and_rethrow s e =
     (case call_errorCallback s e of
        (s', None) \<Rightarrow> (s', Inl e)
      | (s', Some e') \<Rightarrow> (s', Inl e'))"

text \<open>
  A request through \<^verbatim>\<open>this.api\<close>. The server's answer \<open>resp\<close> is an input: \<open>Inr d\<close> is a
  2xx response with body \<open>d\<close>, read at the type the method expects, \<open>Inl e\<close> a rejection
  (non-2xx status or transport failure). axios runs the response interceptors the
  constructor installed: the first passes a response through, the second is
  \<open>report_and_rethrow\<close>.
\<close>

definition api_request ::
    "'a sdk_scheme \<Rightarrow> request \<Rightarrow> error + 'r \<Rightarrow> 'a sdk_scheme \<times> (error + 'r)" where
  "api_request s req resp =
     (let s1 = emit (Http req) s in
      case resp of
        Inr d \<Rightarrow> (s1, Inr d)
      | Inl e \<Rightarrow> report_and_rethrow s1 e)"

definition sendMessage ::
    "'a sdk_scheme \<Rightarrow> string \<Rightarrow> string \<Rightarrow> SendMessageOptions option \<Rightarrow> error + string
      \<Rightarrow> 'a sdk_scheme \<times> (error + string)" where
  "sendMessage s to body options resp =
     (case api_request s (POST_messages to body (privateKey (config s)) options) resp of
        (s1, Inr mid) \<Rightarrow> (s1, Inr mid)
      | (s1, Inl e) \<Rightarrow> report_and_rethrow s1 e)"

definition getAgent ::
    "'a sdk_scheme \<Rightarrow> string \<Rightarrow> error + Agent \<Rightarrow> 'a sdk_scheme \<times> (error + Agent)" where
  "getAgent s agentId resp =
     (case api_request s (GET_agent agentId) resp of
        (s1, Inr a) \<Rightarrow> (s1, Inr a)
      | (s1, Inl e) \<Rightarrow> report_and_rethrow s1 e)"

definition listAgents ::
    "'a sdk_scheme \<Rightarrow> error + Agent list \<Rightarrow> 'a sdk_scheme \<times> (error + Agent list)" where
  "listAgents s resp =
     (case api_request s GET_agents resp of
        (s1, Inr as) \<Rightarrow> (s1, Inr as)
      | (s1, Inl e) \<Rightarrow> report_and_rethrow s1 e)"

text \<open>
  \<^verbatim>\<open>registerAgent\<close>: the \<^verbatim>\<open>catch\<close> block returns on an axios error whose response has
  status 409 and rethrows everything else; it does not call the error handler itself.
\<close>

definition registerAgent ::
    "'a sdk_scheme \<Rightarrow> error + unit \<Rightarrow> 'a sdk_scheme \<times> (error + unit)" where
  "registerAgent s resp =
     (case api_request s
             (POST_agents_register (privateKey (config s)) (agentName (config s))) resp of
        (s1, Inr u) \<Rightarrow> (s1, Inr ())
      | (s1, Inl e) \<Rightarrow>
          if isAxiosError e \<and> response_status e = Some 409 then (s1, Inr ())
          else (s1, Inl e))"

text \<open>\<^verbatim>\<open>since || d\<close> on an optional number: \<^verbatim>\<open>undefined\<close> and \<open>0\<close> are falsy.\<close>

definition since_or :: "int option \<Rightarrow> int \<Rightarrow> int" where
  "since_or since d = (case since of None \<Rightarrow> d | Some t \<Rightarrow> if t = 0 then d else t)"

section \<open>The polling client (the \<^verbatim>\<open>OpenPondSDK\<close> class with \<^verbatim>\<open>pollInterval\<close>)\<close>

text \<open>
  \<open>pollInterval\<close> holds the handle \<^verbatim>\<open>setInterval\<close> returned, or \<open>None\<close> for
  \<^verbatim>\<open>null\<close>. \<open>timers\<close> belongs to the runtime, not to the class: the handles of the
  intervals that are scheduled and not yet cleared.
\<close>

record polling_sdk = sdk +
  pollInterval :: "nat option"
  lastMessageTimestamp :: int
  timers :: "nat list"

definition new_polling_sdk :: "OpenPondConfig \<Rightarrow> polling_sdk" where
  "new_polling_sdk cfg =
     \<lparr>config = cfg, messageCallback = None, errorCallback = None, trace = [],
      pollInterval = None, lastMessageTimestamp = 0, timers = []\<rparr>"

text \<open>A handle that no scheduled interval or open stream has; never 0, so always truthy.\<close>

definition fresh :: "nat list \<Rightarrow> nat" where
  "fresh hs = Suc (fold max hs 0)"

definition polling_getMessages ::
    "polling_sdk \<Rightarrow> int option \<Rightarrow> error + Message list
      \<Rightarrow> polling_sdk \<times> (error + Message list)" where
  "polling_getMessages s since resp =
     (case api_request s
             (GET_messages (privateKey (config s)) (since_or since (lastMessageTimestamp s)))
             resp of
        (s1, Inr ms) \<Rightarrow> (s1, Inr ms)
      | (s1, Inl e) \<Rightarrow> report_and_rethrow s1 e)"

text \<open>
  The body of \<^verbatim>\<open>for (const message of messages)\<close> in \<^verbatim>\<open>startPolling\<close>: the assignment to
  \<^verbatim>\<open>lastMessageTimestamp\<close>, then the call of the message handler.
\<close>

definition loop_body :: "polling_sdk \<Rightarrow> Message \<Rightarrow> polling_sdk \<times> error option" where
  "loop_body s m =
     (let w = max (lastMessageTimestamp s) (timestamp m);
          s1 = emit (WatermarkSet w) (s\<lparr>lastMessageTimestamp := w\<rparr>)
      in call_messageCallback s1 m)"

text \<open>The loop: an exception of the handler leaves it at once.\<close>

fun for_messages :: "polling_sdk \<Rightarrow> Message list \<Rightarrow> polling_sdk \<times> error option" where
  "for_messages s [] = (s, None)"
| "for_messages s (m # ms) =
     (case loop_body s m of
        (s1, None) \<Rightarrow> for_messages s1 ms
      | (s1, Some e) \<Rightarrow> (s1, Some e))"

text \<open>
  The function \<^verbatim>\<open>startPolling\<close> hands to \<^verbatim>\<open>setInterval\<close>, run once on the answer \<open>resp\<close> to
  its \<^verbatim>\<open>getMessages()\<close>. Its \<^verbatim>\<open>catch\<close> block calls the error handler and does not rethrow;
  the second component is what escapes it all the same, an exception of the error handler.
\<close>

definition interval_callback ::
    "polling_sdk \<Rightarrow> error + Message list \<Rightarrow> polling_sdk \<times> error option" where
  "interval_callback s resp =
     (case polling_getMessages s None resp of
        (s1, Inr ms) \<Rightarrow>
          (case for_messages s1 ms of
             (s2, None) \<Rightarrow> (s2, None)
           | (s2, Some e) \<Rightarrow> call_errorCallback s2 e)
      | (s1, Inl e) \<Rightarrow> call_errorCallback s1 e)"

definition startPolling :: "polling_sdk \<Rightarrow> polling_sdk" where
  "startPolling s =
     (let h = fresh (timers s)
      in s\<lparr>pollInterval := Some h, timers := timers s @ [h]\<rparr>)"

definition polling_start ::
    "polling_sdk \<Rightarrow> error + unit \<Rightarrow> polling_sdk \<times> (error + unit)" where
  "polling_start s resp =
     (case registerAgent s resp of
        (s1, Inr u) \<Rightarrow> (startPolling s1, Inr ())
      | (s1, Inl e) \<Rightarrow> report_and_rethrow s1 e)"

definition polling_stop :: "polling_sdk \<Rightarrow> polling_sdk" where
  "polling_stop s =
     (case pollInterval s of
        None \<Rightarrow> s
      | Some h \<Rightarrow> s\<lparr>pollInterval := None, timers := removeAll h (timers s)\<rparr>)"

text \<open>The runtime fires the callback of interval \<open>h\<close> only while \<open>h\<close> is scheduled.\<close>

definition tick ::
    "polling_sdk \<Rightarrow> nat \<Rightarrow> error + Message list \<Rightarrow> polling_sdk \<times> error option" where
  "tick s h resp = (if h \<in> set (timers s) then interval_callback s resp else (s, None))"

text \<open>
  A polling session is any sequence of calls of the public methods and of ticks, each with
  the answer of the server where a request is made. A step runs to its end before the next
  one begins: the answer to a request arrives before anything else happens.
\<close>

datatype action =
    OnMessage "Message handler"
  | OnError "error handler"
  | Start "error + unit"
  | Stop
  | SendMessage string string "SendMessageOptions option" "error + string"
  | GetMessages "int option" "error + Message list"
  | GetAgent string "error + Agent"
  | ListAgents "error + Agent list"
  | Tick nat "error + Message list"

fun exec :: "polling_sdk \<Rightarrow> action \<Rightarrow> polling_sdk" where
  "exec s (OnMessage cb) = onMessage cb s"
| "exec s (OnError cb) = onError cb s"
| "exec s (Start resp) = fst (polling_start s resp)"
| "exec s Stop = polling_stop s"
| "exec s (SendMessage to body options resp) = fst (sendMessage s to body options resp)"
| "exec s (GetMessages since resp) = fst (polling_getMessages s since resp)"
| "exec s (GetAgent agentId resp) = fst (getAgent s agentId resp)"
| "exec s (ListAgents resp) = fst (listAgents s resp)"
| "exec s (Tick h resp) = fst (tick s h resp)"

definition run :: "polling_sdk \<Rightarrow> action list \<Rightarrow> polling_sdk" where
  "run s acts = foldl exec s acts"

section \<open>The push client (\<^verbatim>\<open>src/sdk.ts\<close>)\<close>

text \<open>
  \<open>eventSource\<close> holds the handle of the \<^verbatim>\<open>EventSource\<close>, or \<open>None\<close> for \<^verbatim>\<open>null\<close>.
  \<open>streams\<close> belongs to the runtime: the subscriptions that are open, each with its URL
  and headers.
\<close>

record push_sdk = sdk +
  eventSource :: "nat option"
  streams :: "(nat \<times> string \<times> (string \<times> string) list) list"

definition new_push_sdk :: "OpenPondConfig \<Rightarrow> push_sdk" where
  "new_push_sdk cfg =
     \<lparr>config = cfg, messageCallback = None, errorCallback = None, trace = [],
      eventSource = None, streams = []\<rparr>"

definition push_getMessages ::
    "push_sdk \<Rightarrow> int option \<Rightarrow> error + Message list \<Rightarrow> push_sdk \<times> (error + Message list)" where
  "push_getMessages s since resp =
     (case api_request s (GET_messages (privateKey (config s)) (since_or since 0)) resp of
        (s1, Inr ms) \<Rightarrow> (s1, Inr ms)
      | (s1, Inl e) \<Rightarrow> report_and_rethrow s1 e)"

text \<open>The headers \<^verbatim>\<open>start\<close> builds; an empty string is falsy, \<open>now\<close> is \<^verbatim>\<open>Date.now().toString()\<close>.\<close>

definition stream_headers :: "OpenPondConfig \<Rightarrow> string \<Rightarrow> (string \<times> string) list" where
  "stream_headers cfg now =
     [(''Accept'', ''text/event-stream'')]
     @ (case apiKey cfg of
          None \<Rightarrow> []
        | Some k \<Rightarrow> if k \<noteq> [] then [(''X-API-Key'', k)] else [])
     @ (if privateKey cfg \<noteq> []
        then [(''X-Agent-Id'', privateKey cfg), (''X-Timestamp'', now)] else [])"

text \<open>
  \<^verbatim>\<open>start\<close>. \<open>valid_url\<close> says whether \<^verbatim>\<open>new URL\<close> accepts a string (it throws a
  \<^verbatim>\<open>TypeError\<close> otherwise); the stream is recorded under the string given to \<^verbatim>\<open>new URL\<close>.
  \<open>push_start_body\<close> is the \<^verbatim>\<open>try\<close> block. The \<^verbatim>\<open>catch\<close> block reports only instances of
  \<^verbatim>\<open>Error\<close> and rethrows everything.
\<close>

definition push_start_body ::
    "(string \<Rightarrow> bool) \<Rightarrow> string \<Rightarrow> push_sdk \<Rightarrow> error + unit \<Rightarrow> push_sdk \<times> (error + unit)" where
  "push_start_body valid_url now s resp =
     (case registerAgent s resp of
        (s1, Inl e) \<Rightarrow> (s1, Inl e)
      | (s1, Inr u) \<Rightarrow>
          (let url = apiUrl (config s1) @ ''/messages/stream'' in
           if \<not> valid_url url then (s1, Inl (TypeError ''Invalid URL''))
           else
             (let h = fresh (map fst (streams s1))
              in (s1\<lparr>eventSource := Some h,
                      streams := streams s1 @ [(h, url, stream_headers (config s1) now)]\<rparr>,
                  Inr ()))))"

definition push_start ::
    "(string \<Rightarrow> bool) \<Rightarrow> string \<Rightarrow> push_sdk \<Rightarrow> error + unit \<Rightarrow> push_sdk \<times> (error + unit)" where
  "push_start valid_url now s resp =
     (case push_start_body valid_url now s resp of
        (s1, Inr u) \<Rightarrow> (s1, Inr ())
      | (s1, Inl e) \<Rightarrow>
          if instanceof_Error e then report_and_rethrow s1 e else (s1, Inl e))"

definition push_stop :: "push_sdk \<Rightarrow> push_sdk" where
  "push_stop s =
     (case eventSource s of
        None \<Rightarrow> s
      | Some h \<Rightarrow> s\<lparr>eventSource := None, streams := filter (\<lambda>c. fst c \<noteq> h) (streams s)\<rparr>)"

text \<open>
  The \<^verbatim>\<open>"message"\<close> listener. \<open>parse\<close> is \<^verbatim>\<open>JSON.parse(event.data) as Message\<close>: \<open>Inr m\<close>
  when the data parses as a message, \<open>Inl e\<close> with the exception otherwise. The second
  component of the result is an exception that leaves the listener.
\<close>

definition message_listener_catch :: "push_sdk \<Rightarrow> error \<Rightarrow> push_sdk \<times> error option" where
  "message_listener_catch s e =
     (if instanceof_Error e then call_errorCallback s e
      else call_errorCallback s (Error ''Failed to parse message''))"

definition message_listener ::
    "(string \<Rightarrow> error + Message) \<Rightarrow> push_sdk \<Rightarrow> string \<Rightarrow> push_sdk \<times> error option" where
  "message_listener parse s data =
     (case parse data of
        Inl e \<Rightarrow> message_listener_catch s e
      | Inr m \<Rightarrow>
          if privateKey (config s) \<noteq> [] \<and> toAgentId m = privateKey (config s)
          then (case call_messageCallback s m of
                  (s1, None) \<Rightarrow> (s1, None)
                | (s1, Some e) \<Rightarrow> message_listener_catch s1 e)
          else (s, None))"

definition error_listener :: "push_sdk \<Rightarrow> push_sdk \<times> error option" where
  "error_listener s = call_errorCallback s (Error ''EventSource connection error'')"

text \<open>What the stream \<open>h\<close> delivers reaches the listeners only while \<open>h\<close> is open.\<close>

datatype sse_event = MessageEvent string | ErrorEvent

definition dispatch ::
    "(string \<Rightarrow> error + Message) \<Rightarrow> push_sdk \<Rightarrow> nat \<Rightarrow> sse_event \<Rightarrow> push_sdk \<times> error option" where
  "dispatch parse s h ev =
     (if h \<in> fst ` set (streams s)
      then (case ev of
              MessageEvent data \<Rightarrow> message_listener parse s data
            | ErrorEvent \<Rightarrow> error_listener s)
      else (s, None))"

section \<open>Reading a trace\<close>

text \<open>The events an operation added, and the messages and errors handed to the handlers.\<close>

definition emitted :: "'a sdk_scheme \<Rightarrow> 'b sdk_scheme \<Rightarrow> event list" where
  "emitted s s' = drop (length (trace s)) (trace s')"

fun delivered :: "event list \<Rightarrow> Message list" where
  "delivered [] = []"
| "delivered (MessageCb m # evs) = m # delivered evs"
| "delivered (ev # evs) = delivered evs"

fun reported :: "event list \<Rightarrow> error list" where
  "reported [] = []"
| "reported (ErrorCb e # evs) = e # reported evs"
| "reported (ev # evs) = reported evs"

fun requests :: "event list \<Rightarrow> request list" where
  "requests [] = []"
| "requests (Http r # evs) = r # requests evs"
| "requests (ev # evs) = requests evs"

section \<open>Notions the properties are stated with\<close>

text \<open>
  These are not code of the client. \<open>upto_throw h xs\<close> is \<open>xs\<close> up to and including the
  first element on which the handler \<open>h\<close> throws, \<open>first_throw h xs\<close> that exception;
  \<open>loop_events w ms\<close> are the events of the polling loop on \<open>ms\<close> from the watermark \<open>w\<close>
  when a message handler is registered; \<open>precedes a b evs\<close> says that \<open>a\<close> occurs in
  \<open>evs\<close> and \<open>b\<close> occurs after its first occurrence; \<open>rethrown h e\<close> is what leaves
  \<^verbatim>\<open>this.errorCallback?.(e); throw e\<close> when \<open>h\<close> is the registered error handler.
\<close>

fun upto_throw :: "'a handler \<Rightarrow> 'a list \<Rightarrow> 'a list" where
  "upto_throw h [] = []"
| "upto_throw h (x # xs) = (case h x of None \<Rightarrow> x # upto_throw h xs | Some e \<Rightarrow> [x])"

fun first_throw :: "'a handler \<Rightarrow> 'a list \<Rightarrow> error option" where
  "first_throw h [] = None"
| "first_throw h (x # xs) = (case h x of None \<Rightarrow> first_throw h xs | Some e \<Rightarrow> Some e)"

fun loop_events :: "int \<Rightarrow> Message list \<Rightarrow> event list" where
  "loop_events w [] = []"
| "loop_events w (m # ms) =
     WatermarkSet (max w (timestamp m)) # MessageCb m # loop_events (max w (timestamp m)) ms"

fun precedes :: "'a \<Rightarrow> 'a \<Rightarrow> 'a list \<Rightarrow> bool" where
  "precedes a b [] = False"
| "precedes a b (x # xs) = (if x = a then b \<in> set xs else precedes a b xs)"

definition rethrown :: "error handler \<Rightarrow> error \<Rightarrow> error" where
  "rethrown h e = (case h e of None \<Rightarrow> e | Some e' \<Rightarrow> e')"

text \<open>
  What the specification asks of a public unary method whose request fails with \<open>e\<close> while
  the error handler \<open>h\<close> is registered, \<open>s\<close> being the client before the call and \<open>out\<close>
  the client after it with the result. \<open>dual_notification\<close>: the call rejects, \<open>h\<close> has been
  called on \<open>e\<close>, and the caller gets \<open>e\<close> itself when \<open>h\<close> returns. \<open>double_report\<close>: one
  request was made, \<open>h\<close> has been called exactly twice, first on \<open>e\<close> and then on what left
  the first report, and the call rejects with what left the second.
\<close>

definition dual_notification ::
    "error handler \<Rightarrow> error \<Rightarrow> 'a sdk_scheme \<Rightarrow> 'a sdk_scheme \<times> (error + 'r) \<Rightarrow> bool" where
  "dual_notification h e s out =
     (isl (snd out) \<and> e \<in> set (reported (emitted s (fst out)))
      \<and> (h e = None \<longrightarrow> snd out = Inl e))"

definition double_report ::
    "error handler \<Rightarrow> error \<Rightarrow> 'a sdk_scheme \<Rightarrow> 'a sdk_scheme \<times> (error + 'r) \<Rightarrow> bool" where
  "double_report h e s out =
     (length (requests (emitted s (fst out))) = 1
      \<and> reported (emitted s (fst out)) = [e, rethrown h e]
      \<and> snd out = Inl (rethrown h (rethrown h e)))"

text \<open>Concrete inputs: a configuration, messages, a handler that returns and one that throws.\<close>

definition demo_config :: OpenPondConfig where
  "demo_config = \<lparr>apiUrl = ''https://api.example'', privateKey = ''0xA11CE'',
                   agentName = Some ''alice'', apiKey = None\<rparr>"

definition demo_message :: "int \<Rightarrow> Message" where
  "demo_message t = \<lparr>messageId = ''m'', fromAgentId = ''0xB0B'', toAgentId = ''0xA11CE'',
                      content = ''hello'', timestamp = t, conversationId = None, replyTo = None\<rparr>"

definition quiet :: "'a handler" where
  "quiet x = None"

definition failing :: "'a handler" where
  "failing x = Some (Error ''handler failed'')"

definition polling_session :: "action list \<Rightarrow> polling_sdk" where
  "polling_session acts = run (new_polling_sdk demo_config) acts"

definition push_client :: push_sdk where
  "push_client = onError quiet (onMessage quiet (new_push_sdk demo_config))"

text \<open>
  For the push client: a URL parser that accepts every string, a configuration with no
  private key, and a parser of event data that knows three payloads.
\<close>

definition any_url :: "string \<Rightarrow> bool" where
  "any_url u = True"

definition keyless_config :: OpenPondConfig where
  "keyless_config = demo_config\<lparr>privateKey := []\<rparr>"

definition demo_parse :: "string \<Rightarrow> error + Message" where
  "demo_parse data =
     (if data = ''for alice'' then Inr (demo_message 100)
      else if data = ''for bob'' then Inr ((demo_message 100)\<lparr>toAgentId := ''0xB0B''\<rparr>)
      else if data = ''for nobody'' then Inr ((demo_message 100)\<lparr>toAgentId := []\<rparr>)
      else Inl (SyntaxError ''Unexpected token''))"

section \<open>What each operation leaves alone\<close>

lemma emit_fields [simp]:
  "trace (emit ev s) = trace s @ [ev]"
  "config (emit ev s) = config s"
  "messageCallback (emit ev s) = messageCallback s"
  "errorCallback (emit ev s) = errorCallback s"
  "sdk.more (emit ev s) = sdk.more s"
  by (simp_all add: emit_def)

lemma emit_polling_fields [simp]:
  "lastMessageTimestamp (emit ev p) = lastMessageTimestamp p"
  "pollInterval (emit ev p) = pollInterval p"
  "timers (emit ev p) = timers p"
  by (simp_all add: emit_def)

lemma emit_push_fields [simp]:
  "eventSource (emit ev q) = eventSource q"
  "streams (emit ev q) = streams q"
  by (simp_all add: emit_def)

text \<open>Every shared operation changes the trace only.\<close>

lemma call_errorCallback_frame:
  "\<exists>evs. fst (call_errorCallback s e) = s\<lparr>trace := trace s @ evs\<rparr>"
proof (cases "errorCallback s")
  case None
  then have "fst (call_errorCallback s e) = s\<lparr>trace := trace s @ []\<rparr>"
    by (simp add: call_errorCallback_def)
  then show ?thesis ..
next
  case (Some h)
  then have "fst (call_errorCallback s e) = s\<lparr>trace := trace s @ [ErrorCb e]\<rparr>"
    by (simp add: call_errorCallback_def emit_def)
  then show ?thesis ..
qed

lemma call_messageCallback_frame:
  "\<exists>evs. fst (call_messageCallback s m) = s\<lparr>trace := trace s @ evs\<rparr>"
proof (cases "messageCallback s")
  case None
  then have "fst (call_messageCallback s m) = s\<lparr>trace := trace s @ []\<rparr>"
    by (simp add: call_messageCallback_def)
  then show ?thesis ..
next
  case (Some h)
  then have "fst (call_messageCallback s m) = s\<lparr>trace := trace s @ [MessageCb m]\<rparr>"
    by (simp add: call_messageCallback_def emit_def)
  then show ?thesis ..
qed

lemma report_and_rethrow_fst:
  "fst (report_and_rethrow s e) = fst (call_errorCallback s e)"
  by (simp add: report_and_rethrow_def split: prod.splits option.splits)

lemma report_and_rethrow_frame:
  "\<exists>evs. fst (report_and_rethrow s e) = s\<lparr>trace := trace s @ evs\<rparr>"
  by (simp add: report_and_rethrow_fst call_errorCallback_frame)

lemma api_request_fst:
  "fst (api_request s req resp) =
     (case resp of Inr d \<Rightarrow> emit (Http req) s
      | Inl e \<Rightarrow> fst (call_errorCallback (emit (Http req) s) e))"
  by (simp add: api_request_def report_and_rethrow_fst split: sum.splits)

lemma api_request_frame:
  "\<exists>evs. fst (api_request s req resp) = s\<lparr>trace := trace s @ evs\<rparr>"
proof (cases resp)
  case (Inr d)
  then have "fst (api_request s req resp) = s\<lparr>trace := trace s @ [Http req]\<rparr>"
    by (simp add: api_request_fst emit_def)
  then show ?thesis ..
next
  case (Inl e)
  obtain evs where "fst (call_errorCallback (emit (Http req) s) e)
      = (emit (Http req) s)\<lparr>trace := trace (emit (Http req) s) @ evs\<rparr>"
    using call_errorCallback_frame by blast
  with Inl have "fst (api_request s req resp) = s\<lparr>trace := trace s @ ([Http req] @ evs)\<rparr>"
    by (simp add: api_request_fst emit_def)
  then show ?thesis ..
qed

text \<open>A method whose body is a request inside try/catch with report-and-rethrow.\<close>

lemma try_request_frame:
  assumes "\<And>s1 d. f s1 d = (s1, Inr (g d))"
  shows "\<exists>evs. fst (case api_request s req resp of
                     (s1, Inr d) \<Rightarrow> f s1 d
                   | (s1, Inl e) \<Rightarrow> report_and_rethrow s1 e) = s\<lparr>trace := trace s @ evs\<rparr>"
proof -
  obtain s1 r where ar: "api_request s req resp = (s1, r)"
    by (cases "api_request s req resp")
  obtain evs where s1: "s1 = s\<lparr>trace := trace s @ evs\<rparr>"
    using api_request_frame [of s req resp] ar by auto
  show ?thesis
  proof (cases r)
    case (Inr d)
    with ar s1 assms show ?thesis by auto
  next
    case (Inl e)
    obtain evs' where "fst (call_errorCallback s1 e) = s1\<lparr>trace := trace s1 @ evs'\<rparr>"
      using call_errorCallback_frame by blast
    with s1 have "fst (call_errorCallback s1 e) = s\<lparr>trace := trace s @ (evs @ evs')\<rparr>"
      by simp
    with ar Inl show ?thesis
      by (auto simp: report_and_rethrow_fst)
  qed
qed

lemma sendMessage_frame:
  "\<exists>evs. fst (sendMessage s to body options resp) = s\<lparr>trace := trace s @ evs\<rparr>"
  unfolding sendMessage_def by (rule try_request_frame [where g = id]) simp

lemma getAgent_frame:
  "\<exists>evs. fst (getAgent s agentId resp) = s\<lparr>trace := trace s @ evs\<rparr>"
  unfolding getAgent_def by (rule try_request_frame [where g = id]) simp

lemma listAgents_frame:
  "\<exists>evs. fst (listAgents s resp) = s\<lparr>trace := trace s @ evs\<rparr>"
  unfolding listAgents_def by (rule try_request_frame [where g = id]) simp

lemma polling_getMessages_frame:
  "\<exists>evs. fst (polling_getMessages s since resp) = s\<lparr>trace := trace s @ evs\<rparr>"
  unfolding polling_getMessages_def by (rule try_request_frame [where g = id]) simp

lemma push_getMessages_frame:
  "\<exists>evs. fst (push_getMessages s since resp) = s\<lparr>trace := trace s @ evs\<rparr>"
  unfolding push_getMessages_def by (rule try_request_frame [where g = id]) simp

lemma registerAgent_frame:
  "\<exists>evs. fst (registerAgent s resp) = s\<lparr>trace := trace s @ evs\<rparr>"
proof -
  have "fst (registerAgent s resp)
      = fst (api_request s (POST_agents_register (privateKey (config s)) (agentName (config s))) resp)"
    by (simp add: registerAgent_def split: prod.splits sum.splits)
  then show ?thesis by (simp add: api_request_frame)
qed


section \<open>The watermark of the polling client\<close>

lemma loop_body_watermark:
  "lastMessageTimestamp (fst (loop_body s m)) = max (lastMessageTimestamp s) (timestamp m)"
proof -
  let ?w = "max (lastMessageTimestamp s) (timestamp m)"
  let ?s1 = "emit (WatermarkSet ?w) (s\<lparr>lastMessageTimestamp := ?w\<rparr>)"
  obtain evs where "fst (call_messageCallback ?s1 m) = ?s1\<lparr>trace := trace ?s1 @ evs\<rparr>"
    using call_messageCallback_frame by blast
  then show ?thesis by (simp add: loop_body_def Let_def)
qed

lemma for_messages_mono:
  "lastMessageTimestamp s \<le> lastMessageTimestamp (fst (for_messages s ms))"
proof (induction ms arbitrary: s)
  case Nil
  show ?case by simp
next
  case (Cons m ms)
  obtain s1 r where lb: "loop_body s m = (s1, r)" by (cases "loop_body s m")
  then have w1: "lastMessageTimestamp s1 = max (lastMessageTimestamp s) (timestamp m)"
    using loop_body_watermark [of s m] by simp
  show ?case
  proof (cases r)
    case None
    with lb have "fst (for_messages s (m # ms)) = fst (for_messages s1 ms)" by simp
    moreover have "lastMessageTimestamp s1 \<le> lastMessageTimestamp (fst (for_messages s1 ms))"
      by (rule Cons.IH)
    ultimately show ?thesis using w1 by simp
  next
    case (Some e)
    with lb have "fst (for_messages s (m # ms)) = s1" by simp
    then show ?thesis using w1 by simp
  qed
qed

lemma call_errorCallback_watermark:
  "lastMessageTimestamp (fst (call_errorCallback s e)) = lastMessageTimestamp s"
proof -
  obtain evs where "fst (call_errorCallback s e) = s\<lparr>trace := trace s @ evs\<rparr>"
    using call_errorCallback_frame by blast
  then show ?thesis by simp
qed

lemma polling_getMessages_watermark:
  "lastMessageTimestamp (fst (polling_getMessages s since resp)) = lastMessageTimestamp s"
proof -
  obtain evs where "fst (polling_getMessages s since resp) = s\<lparr>trace := trace s @ evs\<rparr>"
    using polling_getMessages_frame by blast
  then show ?thesis by simp
qed

lemma interval_callback_mono:
  "lastMessageTimestamp s \<le> lastMessageTimestamp (fst (interval_callback s resp))"
proof -
  obtain s1 r where gm: "polling_getMessages s None resp = (s1, r)"
    by (cases "polling_getMessages s None resp")
  then have w1: "lastMessageTimestamp s1 = lastMessageTimestamp s"
    using polling_getMessages_watermark [of s None resp] by simp
  show ?thesis
  proof (cases r)
    case (Inl e)
    with gm w1 show ?thesis
      by (simp add: interval_callback_def call_errorCallback_watermark)
  next
    case (Inr ms)
    obtain s2 r2 where fm: "for_messages s1 ms = (s2, r2)" by (cases "for_messages s1 ms")
    then have "lastMessageTimestamp s1 \<le> lastMessageTimestamp s2"
      using for_messages_mono [of s1 ms] by simp
    with gm Inr fm w1 show ?thesis
      by (cases r2) (simp_all add: interval_callback_def call_errorCallback_watermark)
  qed
qed

lemma polling_start_watermark:
  "lastMessageTimestamp (fst (polling_start s resp)) = lastMessageTimestamp s"
proof -
  obtain s1 r where ra: "registerAgent s resp = (s1, r)" by (cases "registerAgent s resp")
  then have w1: "lastMessageTimestamp s1 = lastMessageTimestamp s"
    using registerAgent_frame [of s resp] by auto
  show ?thesis
  proof (cases r)
    case (Inr u)
    with ra w1 show ?thesis by (simp add: polling_start_def startPolling_def Let_def)
  next
    case (Inl e)
    with ra w1 show ?thesis
      by (simp add: polling_start_def report_and_rethrow_fst call_errorCallback_watermark)
  qed
qed

lemma exec_watermark_unchanged:
  assumes "\<And>h resp. a \<noteq> Tick h resp"
  shows "lastMessageTimestamp (exec s a) = lastMessageTimestamp s"
proof (cases a)
  case (SendMessage to body options resp)
  obtain evs where "fst (sendMessage s to body options resp) = s\<lparr>trace := trace s @ evs\<rparr>"
    using sendMessage_frame by blast
  with SendMessage show ?thesis by simp
next
  case (GetAgent agentId resp)
  obtain evs where "fst (getAgent s agentId resp) = s\<lparr>trace := trace s @ evs\<rparr>"
    using getAgent_frame by blast
  with GetAgent show ?thesis by simp
next
  case (ListAgents resp)
  obtain evs where "fst (listAgents s resp) = s\<lparr>trace := trace s @ evs\<rparr>"
    using listAgents_frame by blast
  with ListAgents show ?thesis by simp
next
  case (Tick h resp)
  with assms show ?thesis by blast
qed (simp_all add: onMessage_def onError_def polling_start_watermark polling_stop_def
       polling_getMessages_watermark split: option.splits)

lemma exec_mono: "lastMessageTimestamp s \<le> lastMessageTimestamp (exec s a)"
proof (cases "\<exists>h resp. a = Tick h resp")
  case True
  then show ?thesis by (auto simp: tick_def interval_callback_mono)
next
  case False
  then show ?thesis by (simp add: exec_watermark_unchanged)
qed

lemma run_mono: "lastMessageTimestamp s \<le> lastMessageTimestamp (run s acts)"
  unfolding run_def
proof (induction acts arbitrary: s)
  case Nil
  show ?case by simp
next
  case (Cons a acts)
  have "lastMessageTimestamp s \<le> lastMessageTimestamp (exec s a)" by (rule exec_mono)
  also have "\<dots> \<le> lastMessageTimestamp (foldl exec (exec s a) acts)" by (rule Cons.IH)
  finally show ?case by simp
qed

text \<open>
  Claim C1. The high-watermark cursor \<^verbatim>\<open>lastMessageTimestamp\<close> never decreases. Processing
  one message leaves it at the maximum of its previous value and the timestamp of that
  message, whatever the message handler does; a poll cycle never lowers it; and in any
  session, that is any sequence of ticks and calls of the public methods, its value after
  a longer prefix of the session is at least its value after a shorter one.
\<close>

theorem watermark_never_decreases:
  "lastMessageTimestamp (fst (loop_body s m)) = max (lastMessageTimestamp s) (timestamp m)
   \<and> lastMessageTimestamp s \<le> lastMessageTimestamp (fst (tick s h resp))
   \<and> lastMessageTimestamp (run s acts) \<le> lastMessageTimestamp (run s (acts @ more_acts))"
proof -
  have "lastMessageTimestamp s \<le> lastMessageTimestamp (fst (tick s h resp))"
    by (simp add: tick_def interval_callback_mono)
  moreover have "run s (acts @ more_acts) = run (run s acts) more_acts"
    by (simp add: run_def)
  ultimately show ?thesis
    by (simp add: loop_body_watermark run_mono)
qed

section \<open>One poll cycle, exactly\<close>

lemma loop_body_registered:
  assumes "messageCallback s = Some cb"
  shows "loop_body s m =
     (s\<lparr>trace := trace s @ [WatermarkSet (max (lastMessageTimestamp s) (timestamp m)), MessageCb m],
        lastMessageTimestamp := max (lastMessageTimestamp s) (timestamp m)\<rparr>, cb m)"
  using assms by (simp add: loop_body_def Let_def call_messageCallback_def emit_def)

lemma for_messages_registered:
  assumes "messageCallback s = Some cb"
  shows "for_messages s ms =
     (s\<lparr>trace := trace s @ loop_events (lastMessageTimestamp s) (upto_throw cb ms),
        lastMessageTimestamp := fold max (map timestamp (upto_throw cb ms)) (lastMessageTimestamp s)\<rparr>,
      first_throw cb ms)"
  using assms
proof (induction ms arbitrary: s)
  case Nil
  show ?case by simp
next
  case (Cons m ms)
  let ?w = "max (lastMessageTimestamp s) (timestamp m)"
  let ?s1 = "s\<lparr>trace := trace s @ [WatermarkSet ?w, MessageCb m], lastMessageTimestamp := ?w\<rparr>"
  have lb: "loop_body s m = (?s1, cb m)"
    using Cons.prems by (rule loop_body_registered)
  show ?case
  proof (cases "cb m")
    case None
    have "messageCallback ?s1 = Some cb" using Cons.prems by simp
    then have "for_messages ?s1 ms =
       (?s1\<lparr>trace := trace ?s1 @ loop_events (lastMessageTimestamp ?s1) (upto_throw cb ms),
          lastMessageTimestamp := fold max (map timestamp (upto_throw cb ms)) (lastMessageTimestamp ?s1)\<rparr>,
        first_throw cb ms)"
      by (rule Cons.IH)
    with lb None show ?thesis by (simp add: max.commute)
  next
    case (Some e)
    with lb show ?thesis by simp
  qed
qed

lemma delivered_loop_events: "delivered (loop_events w ms) = ms"
  by (induction ms arbitrary: w) simp_all

lemma reported_loop_events: "reported (loop_events w ms) = []"
  by (induction ms arbitrary: w) simp_all

lemma requests_loop_events: "requests (loop_events w ms) = []"
  by (induction ms arbitrary: w) simp_all

lemma upto_throw_all: "(\<forall>x\<in>set xs. h x = None) \<Longrightarrow> upto_throw h xs = xs"
  by (induction xs) simp_all

lemma fold_max_Max: "fold max (map f xs) (w::int) = Max (insert w (f ` set xs))"
proof -
  have "Max (set (w # map f xs)) = fold max (map f xs) w"
    by (rule Max.set_eq_fold)
  then show ?thesis by simp
qed

lemma emitted_append: "trace s' = trace s @ evs \<Longrightarrow> emitted s s' = evs"
  by (simp add: emitted_def)

lemma api_request_ok:
  "api_request s req (Inr d) = (s\<lparr>trace := trace s @ [Http req]\<rparr>, Inr d)"
  by (simp add: api_request_def emit_def)

lemma api_request_failed:
  assumes "errorCallback s = Some h"
  shows "api_request s req (Inl e) =
           (s\<lparr>trace := trace s @ [Http req, ErrorCb e]\<rparr>, Inl (rethrown h e))"
  using assms
  by (simp add: api_request_def report_and_rethrow_def call_errorCallback_def emit_def
        rethrown_def split: option.splits)

lemma api_request_failed_silent:
  assumes "errorCallback s = None"
  shows "api_request s req (Inl e) = (s\<lparr>trace := trace s @ [Http req]\<rparr>, Inl e)"
  using assms
  by (simp add: api_request_def report_and_rethrow_def call_errorCallback_def emit_def)

lemma report_and_rethrow_registered:
  assumes "errorCallback s = Some h"
  shows "report_and_rethrow s e = (s\<lparr>trace := trace s @ [ErrorCb e]\<rparr>, Inl (rethrown h e))"
  using assms
  by (simp add: report_and_rethrow_def call_errorCallback_def emit_def rethrown_def
        split: option.splits)

lemma polling_getMessages_ok:
  "polling_getMessages s since (Inr ms) =
     (s\<lparr>trace := trace s @ [Http (GET_messages (privateKey (config s))
                                     (since_or since (lastMessageTimestamp s)))]\<rparr>, Inr ms)"
  by (simp add: polling_getMessages_def api_request_ok)

lemma interval_callback_ok:
  assumes "messageCallback s = Some cb"
  shows "\<exists>evs. trace (fst (interval_callback s (Inr ms))) =
            trace s @ Http (GET_messages (privateKey (config s)) (lastMessageTimestamp s))
              # loop_events (lastMessageTimestamp s) (upto_throw cb ms) @ evs
          \<and> delivered evs = []
          \<and> lastMessageTimestamp (fst (interval_callback s (Inr ms))) =
              fold max (map timestamp (upto_throw cb ms)) (lastMessageTimestamp s)
          \<and> messageCallback (fst (interval_callback s (Inr ms))) = Some cb"
proof -
  let ?s1 = "s\<lparr>trace := trace s @ [Http (GET_messages (privateKey (config s))
                                     (lastMessageTimestamp s))]\<rparr>"
  let ?s2 = "?s1\<lparr>trace := trace ?s1 @ loop_events (lastMessageTimestamp ?s1) (upto_throw cb ms),
        lastMessageTimestamp := fold max (map timestamp (upto_throw cb ms)) (lastMessageTimestamp ?s1)\<rparr>"
  have gm: "polling_getMessages s None (Inr ms) = (?s1, Inr ms)"
    by (simp add: polling_getMessages_ok since_or_def)
  have "messageCallback ?s1 = Some cb" using assms by simp
  then have fm: "for_messages ?s1 ms = (?s2, first_throw cb ms)"
    by (rule for_messages_registered)
  show ?thesis
  proof (cases "first_throw cb ms")
    case None
    with gm fm have "interval_callback s (Inr ms) = (?s2, None)"
      by (simp add: interval_callback_def)
    then show ?thesis using assms by simp
  next
    case (Some e)
    with gm fm have ic: "interval_callback s (Inr ms) = call_errorCallback ?s2 e"
      by (simp add: interval_callback_def)
    show ?thesis
    proof (cases "errorCallback s")
      case None
      with ic have "interval_callback s (Inr ms) = (?s2, None)"
        by (simp add: call_errorCallback_def)
      then show ?thesis using assms by simp
    next
      case (Some h)
      with ic have "fst (interval_callback s (Inr ms)) = ?s2\<lparr>trace := trace ?s2 @ [ErrorCb e]\<rparr>"
        by (simp add: call_errorCallback_def emit_def)
      then show ?thesis using assms by simp
    qed
  qed
qed

section \<open>Evaluating sessions\<close>

lemmas polling_eval =
  polling_session_def run_def new_polling_sdk_def demo_config_def demo_message_def quiet_def
  failing_def onMessage_def onError_def polling_start_def polling_stop_def startPolling_def
  registerAgent_def api_request_def report_and_rethrow_def call_errorCallback_def
  call_messageCallback_def emit_def tick_def interval_callback_def polling_getMessages_def
  loop_body_def since_or_def fresh_def sendMessage_def getAgent_def listAgents_def
  emitted_def Let_def

lemmas push_eval =
  push_client_def new_push_sdk_def demo_config_def demo_message_def quiet_def failing_def
  onMessage_def onError_def registerAgent_def api_request_def report_and_rethrow_def
  call_errorCallback_def call_messageCallback_def emit_def push_getMessages_def since_or_def
  fresh_def sendMessage_def getAgent_def listAgents_def emitted_def Let_def

lemmas listener_eval =
  message_listener_def message_listener_catch_def demo_parse_def keyless_config_def
  push_start_def push_start_body_def stream_headers_def any_url_def dispatch_def
  error_listener_def

section \<open>Delivery in a poll cycle\<close>

text \<open>
  Claim C2 (amended). In a poll cycle whose response is the list \<open>ms\<close>, with a message
  handler registered, the handler is called on the messages of \<open>ms\<close> in the order of the
  response, once per element, up to and including the first message on which it throws
  (so on all of them when it throws on none); after the cycle the watermark is the maximum
  of its previous value and the timestamps of those messages; and a following cycle with an
  empty response calls the handler on nothing and leaves the watermark where it is.
\<close>

theorem poll_cycle_delivery:
  assumes "messageCallback s = Some cb"
      and "s' = fst (interval_callback s (Inr ms))"
      and "s'' = fst (interval_callback s' (Inr []))"
  shows "delivered (emitted s s') = upto_throw cb ms
       \<and> lastMessageTimestamp s' =
           Max (insert (lastMessageTimestamp s) (timestamp ` set (upto_throw cb ms)))
       \<and> ((\<forall>m\<in>set ms. cb m = None) \<longrightarrow>
            delivered (emitted s s') = ms
            \<and> lastMessageTimestamp s' = Max (insert (lastMessageTimestamp s) (timestamp ` set ms)))
       \<and> delivered (emitted s' s'') = []
       \<and> lastMessageTimestamp s'' = lastMessageTimestamp s'"
proof -
  obtain evs where
      tr: "trace s' = trace s @ Http (GET_messages (privateKey (config s)) (lastMessageTimestamp s))
              # loop_events (lastMessageTimestamp s) (upto_throw cb ms) @ evs"
    and dl: "delivered evs = []"
    and wm: "lastMessageTimestamp s' = fold max (map timestamp (upto_throw cb ms)) (lastMessageTimestamp s)"
    and cb': "messageCallback s' = Some cb"
    using interval_callback_ok [OF assms(1), of ms] assms(2) by blast
  have del_app: "\<And>xs ys. delivered (xs @ ys) = delivered xs @ delivered ys"
  proof -
    fix xs ys :: "event list"
    show "delivered (xs @ ys) = delivered xs @ delivered ys"
      by (induction xs rule: delivered.induct) simp_all
  qed
  have d1: "delivered (emitted s s') = upto_throw cb ms"
    using tr dl by (simp add: emitted_def del_app delivered_loop_events)
  have w1: "lastMessageTimestamp s' =
      Max (insert (lastMessageTimestamp s) (timestamp ` set (upto_throw cb ms)))"
    using wm by (simp add: fold_max_Max)
  obtain evs2 where
      tr2: "trace s'' = trace s' @ Http (GET_messages (privateKey (config s')) (lastMessageTimestamp s'))
              # loop_events (lastMessageTimestamp s') (upto_throw cb []) @ evs2"
    and dl2: "delivered evs2 = []"
    and wm2: "lastMessageTimestamp s'' = fold max (map timestamp (upto_throw cb [])) (lastMessageTimestamp s')"
    using interval_callback_ok [OF cb', of "[]"] assms(3) by blast
  have d2: "delivered (emitted s' s'') = []"
    using tr2 dl2 by (simp add: emitted_def)
  have w2: "lastMessageTimestamp s'' = lastMessageTimestamp s'"
    using wm2 by simp
  show ?thesis
    using d1 w1 d2 w2 by (simp add: upto_throw_all)
qed

text \<open>
  The scenario of the specification: a started client with a handler, one cycle answering
  with the timestamps 100 and 200, then one answering with nothing.
\<close>

theorem poll_cycle_delivery_witness:
  "messageCallback (polling_session [OnMessage quiet, Start (Inr ())]) = Some quiet
   \<and> delivered (emitted (polling_session [OnMessage quiet, Start (Inr ())])
        (fst (interval_callback (polling_session [OnMessage quiet, Start (Inr ())])
                (Inr [demo_message 100, demo_message 200]))))
       = [demo_message 100, demo_message 200]
   \<and> lastMessageTimestamp
        (fst (interval_callback (polling_session [OnMessage quiet, Start (Inr ())])
                (Inr [demo_message 100, demo_message 200]))) = 200
   \<and> delivered (emitted
        (fst (interval_callback (polling_session [OnMessage quiet, Start (Inr ())])
                (Inr [demo_message 100, demo_message 200])))
        (fst (interval_callback
                (fst (interval_callback (polling_session [OnMessage quiet, Start (Inr ())])
                        (Inr [demo_message 100, demo_message 200])))
                (Inr [])))) = []"
proof -
  have registered: "messageCallback (polling_session [OnMessage quiet, Start (Inr ())]) = Some quiet"
    by (simp add: polling_eval)
  have returns: "\<forall>m\<in>set [demo_message 100, demo_message 200]. (quiet :: Message handler) m = None"
    by (simp add: quiet_def)
  have start_at: "lastMessageTimestamp (polling_session [OnMessage quiet, Start (Inr ())]) = 0"
    by (simp add: polling_eval)
  have stamps: "Max (insert 0 (timestamp ` set [demo_message 100, demo_message 200])) = 200"
    by (simp add: demo_message_def)
  show ?thesis
    using poll_cycle_delivery [OF registered refl refl, of "[demo_message 100, demo_message 200]"]
      registered returns start_at stamps
    by simp
qed

text \<open>
  The claim as stated fails. After a cycle that delivered timestamp 200, a cycle whose
  response holds one message of timestamp 100 delivers it and leaves the watermark at 200,
  which is not the maximum timestamp among the messages this cycle delivered.
\<close>

theorem poll_cycle_delivery_counterexample:
  "lastMessageTimestamp
     (polling_session [OnMessage quiet, Start (Inr ()), Tick 1 (Inr [demo_message 200]),
                       Tick 1 (Inr [demo_message 100])])
   \<noteq> Max (timestamp ` set (delivered (emitted
         (polling_session [OnMessage quiet, Start (Inr ()), Tick 1 (Inr [demo_message 200])])
         (polling_session [OnMessage quiet, Start (Inr ()), Tick 1 (Inr [demo_message 200]),
                           Tick 1 (Inr [demo_message 100])]))))"
  by (simp add: polling_eval)

section \<open>Where and when the watermark is assigned\<close>

text \<open>
  Claim C3 (amended). Only the polling loop assigns the watermark: every step of a session
  that is not a tick leaves it as it is. For each message the loop assigns the watermark
  first and calls the message handler second, so the assignment is the event right before
  the call, and it has happened also when the handler throws.
\<close>

theorem watermark_set_before_callback:
  "((\<forall>h resp. a \<noteq> Tick h resp) \<longrightarrow> lastMessageTimestamp (exec s a) = lastMessageTimestamp s)
   \<and> (messageCallback s = Some cb \<longrightarrow>
        trace (fst (loop_body s m)) =
          trace s @ [WatermarkSet (max (lastMessageTimestamp s) (timestamp m)), MessageCb m]
        \<and> snd (loop_body s m) = cb m
        \<and> lastMessageTimestamp (fst (loop_body s m)) = max (lastMessageTimestamp s) (timestamp m))"
  by (simp add: exec_watermark_unchanged loop_body_registered)

theorem watermark_set_before_callback_witness:
  "lastMessageTimestamp (exec (polling_session [OnMessage failing, Start (Inr ())])
       (GetMessages (Some 7) (Inr [demo_message 100]))) = 0
   \<and> messageCallback (polling_session [OnMessage failing, Start (Inr ())]) = Some failing
   \<and> trace (fst (loop_body (polling_session [OnMessage failing, Start (Inr ())]) (demo_message 100)))
       = [Http (POST_agents_register ''0xA11CE'' (Some ''alice'')),
          WatermarkSet 100, MessageCb (demo_message 100)]
   \<and> snd (loop_body (polling_session [OnMessage failing, Start (Inr ())]) (demo_message 100))
       = Some (Error ''handler failed'')
   \<and> lastMessageTimestamp
        (fst (loop_body (polling_session [OnMessage failing, Start (Inr ())]) (demo_message 100)))
       = 100"
proof -
  have not_tick: "\<forall>h resp. GetMessages (Some 7) (Inr [demo_message 100]) \<noteq> Tick h resp"
    by simp
  have registered:
    "messageCallback (polling_session [OnMessage failing, Start (Inr ())]) = Some failing"
    by (simp add: polling_eval)
  have before: "lastMessageTimestamp (polling_session [OnMessage failing, Start (Inr ())]) = 0"
    by (simp add: polling_eval)
  have tr: "trace (polling_session [OnMessage failing, Start (Inr ())])
      = [Http (POST_agents_register ''0xA11CE'' (Some ''alice''))]"
    by (simp add: polling_eval)
  show ?thesis
    using watermark_set_before_callback
      [of "GetMessages (Some 7) (Inr [demo_message 100])"
          "polling_session [OnMessage failing, Start (Inr ())]" failing "demo_message 100"]
      not_tick registered before tr
    by (simp add: demo_message_def failing_def)
qed

text \<open>
  The claim as stated, that the assignment never comes before the call of the handler for
  that message, fails on a cycle with one message: the assignment precedes the call and the
  call does not precede the assignment.
\<close>

theorem watermark_set_before_callback_counterexample:
  "precedes (WatermarkSet 100) (MessageCb (demo_message 100))
     (trace (polling_session [OnMessage quiet, Start (Inr ()), Tick 1 (Inr [demo_message 100])]))
   \<and> \<not> precedes (MessageCb (demo_message 100)) (WatermarkSet 100)
     (trace (polling_session [OnMessage quiet, Start (Inr ()), Tick 1 (Inr [demo_message 100])]))"
  by (simp add: polling_eval)

section \<open>Failing requests of the public unary methods\<close>

lemma try_request_ok:
  "(case api_request s req (Inr d) of
      (s1, Inr x) \<Rightarrow> (s1, Inr x)
    | (s1, Inl e) \<Rightarrow> report_and_rethrow s1 e)
   = (s\<lparr>trace := trace s @ [Http req]\<rparr>, Inr d)"
  by (simp add: api_request_ok)

lemma try_request_failed:
  assumes "errorCallback s = Some h"
  shows "(case api_request s req (Inl e) of
            (s1, Inr x) \<Rightarrow> (s1, Inr x)
          | (s1, Inl e') \<Rightarrow> report_and_rethrow s1 e')
         = (s\<lparr>trace := trace s @ [Http req, ErrorCb e, ErrorCb (rethrown h e)]\<rparr>,
            Inl (rethrown h (rethrown h e)))"
proof -
  let ?s1 = "s\<lparr>trace := trace s @ [Http req, ErrorCb e]\<rparr>"
  have "errorCallback ?s1 = Some h" using assms by simp
  then have "report_and_rethrow ?s1 (rethrown h e)
      = (?s1\<lparr>trace := trace ?s1 @ [ErrorCb (rethrown h e)]\<rparr>, Inl (rethrown h (rethrown h e)))"
    by (rule report_and_rethrow_registered)
  then show ?thesis using assms by (simp add: api_request_failed)
qed

lemma try_request_failed_silent:
  assumes "errorCallback s = None"
  shows "(case api_request s req (Inl e) of
            (s1, Inr x) \<Rightarrow> (s1, Inr x)
          | (s1, Inl e') \<Rightarrow> report_and_rethrow s1 e')
         = (s\<lparr>trace := trace s @ [Http req]\<rparr>, Inl e)"
  using assms
  by (simp add: api_request_failed_silent report_and_rethrow_def call_errorCallback_def)

lemma rethrown_returns: "h e = None \<Longrightarrow> rethrown h e = e"
  by (simp add: rethrown_def)

lemma failed_dual:
  assumes "out = (s\<lparr>trace := trace s @ [Http req, ErrorCb e, ErrorCb (rethrown h e)]\<rparr>,
                  Inl (rethrown h (rethrown h e)))"
  shows "dual_notification h e s out"
  using assms by (simp add: dual_notification_def emitted_def rethrown_returns)

lemma failed_double:
  assumes "out = (s\<lparr>trace := trace s @ [Http req, ErrorCb e, ErrorCb (rethrown h e)]\<rparr>,
                  Inl (rethrown h (rethrown h e)))"
  shows "double_report h e s out"
  using assms by (simp add: double_report_def emitted_def)

text \<open>
  Claim C6. When the request of \<^verbatim>\<open>sendMessage\<close>, \<^verbatim>\<open>getMessages\<close> (of either client),
  \<^verbatim>\<open>getAgent\<close> or \<^verbatim>\<open>listAgents\<close> fails with \<open>e\<close> and an error handler is registered, the
  method both calls the handler on \<open>e\<close> and rejects; the caller gets \<open>e\<close> itself whenever
  the handler returns.
\<close>

theorem unary_failure_dual_notification:
  assumes "errorCallback s = Some h" and "errorCallback p = Some h" and "errorCallback q = Some h"
  shows "dual_notification h e s (sendMessage s to body options (Inl e))
       \<and> dual_notification h e p (polling_getMessages p since (Inl e))
       \<and> dual_notification h e q (push_getMessages q since (Inl e))
       \<and> dual_notification h e s (getAgent s agentId (Inl e))
       \<and> dual_notification h e s (listAgents s (Inl e))"
proof -
  have "dual_notification h e s (sendMessage s to body options (Inl e))"
    unfolding sendMessage_def by (rule failed_dual, rule try_request_failed, rule assms(1))
  moreover have "dual_notification h e p (polling_getMessages p since (Inl e))"
    unfolding polling_getMessages_def by (rule failed_dual, rule try_request_failed, rule assms(2))
  moreover have "dual_notification h e q (push_getMessages q since (Inl e))"
    unfolding push_getMessages_def by (rule failed_dual, rule try_request_failed, rule assms(3))
  moreover have "dual_notification h e s (getAgent s agentId (Inl e))"
    unfolding getAgent_def by (rule failed_dual, rule try_request_failed, rule assms(1))
  moreover have "dual_notification h e s (listAgents s (Inl e))"
    unfolding listAgents_def by (rule failed_dual, rule try_request_failed, rule assms(1))
  ultimately show ?thesis by simp
qed

theorem unary_failure_dual_notification_witness:
  "AxiosError (Some 500) \<in> set (reported (emitted (polling_session [OnError quiet])
       (fst (sendMessage (polling_session [OnError quiet]) ''0xB0B'' ''hello'' None
               (Inl (AxiosError (Some 500)))))))
   \<and> snd (sendMessage (polling_session [OnError quiet]) ''0xB0B'' ''hello'' None
               (Inl (AxiosError (Some 500)))) = Inl (AxiosError (Some 500))
   \<and> AxiosError None \<in> set (reported (emitted (polling_session [OnError quiet])
       (fst (polling_getMessages (polling_session [OnError quiet]) None (Inl (AxiosError None))))))
   \<and> snd (polling_getMessages (polling_session [OnError quiet]) None (Inl (AxiosError None)))
       = Inl (AxiosError None)
   \<and> AxiosError (Some 404) \<in> set (reported (emitted push_client
       (fst (getAgent push_client ''0xB0B'' (Inl (AxiosError (Some 404)))))))
   \<and> snd (getAgent push_client ''0xB0B'' (Inl (AxiosError (Some 404))))
       = Inl (AxiosError (Some 404))"
proof -
  have p: "errorCallback (polling_session [OnError quiet]) = Some quiet"
    by (simp add: polling_eval)
  have q: "errorCallback push_client = Some quiet"
    by (simp add: push_eval)
  have r: "\<And>e. (quiet :: error handler) e = None"
    by (simp add: quiet_def)
  show ?thesis
    using unary_failure_dual_notification [OF p p q,
            where e = "AxiosError (Some 500)" and to = "''0xB0B''" and body = "''hello''"
              and options = None]
          unary_failure_dual_notification [OF p p q, where e = "AxiosError None" and since = None]
          unary_failure_dual_notification [OF q p q,
            where e = "AxiosError (Some 404)" and agentId = "''0xB0B''"]
          r
    by (simp add: dual_notification_def)
qed

text \<open>
  Claim C9. For the same methods and a failing request, the error handler is called exactly
  twice for the one failure: by the response interceptor on \<open>e\<close>, then by the \<^verbatim>\<open>catch\<close> block
  of the method on what the interceptor rethrew (\<open>e\<close> again when the handler returned), and
  only then is the error rethrown to the caller. One request was made.
\<close>

theorem unary_failure_reported_twice:
  assumes "errorCallback s = Some h" and "errorCallback p = Some h" and "errorCallback q = Some h"
  shows "double_report h e s (sendMessage s to body options (Inl e))
       \<and> double_report h e p (polling_getMessages p since (Inl e))
       \<and> double_report h e q (push_getMessages q since (Inl e))
       \<and> double_report h e s (getAgent s agentId (Inl e))
       \<and> double_report h e s (listAgents s (Inl e))"
proof -
  have "double_report h e s (sendMessage s to body options (Inl e))"
    unfolding sendMessage_def by (rule failed_double, rule try_request_failed, rule assms(1))
  moreover have "double_report h e p (polling_getMessages p since (Inl e))"
    unfolding polling_getMessages_def by (rule failed_double, rule try_request_failed, rule assms(2))
  moreover have "double_report h e q (push_getMessages q since (Inl e))"
    unfolding push_getMessages_def by (rule failed_double, rule try_request_failed, rule assms(3))
  moreover have "double_report h e s (getAgent s agentId (Inl e))"
    unfolding getAgent_def by (rule failed_double, rule try_request_failed, rule assms(1))
  moreover have "double_report h e s (listAgents s (Inl e))"
    unfolding listAgents_def by (rule failed_double, rule try_request_failed, rule assms(1))
  ultimately show ?thesis by simp
qed

theorem unary_failure_reported_twice_witness:
  "reported (emitted (polling_session [OnError quiet])
       (fst (sendMessage (polling_session [OnError quiet]) ''0xB0B'' ''hello'' None
               (Inl (AxiosError (Some 500))))))
     = [AxiosError (Some 500), AxiosError (Some 500)]
   \<and> reported (emitted push_client
       (fst (push_getMessages push_client (Some 5) (Inl (AxiosError None)))))
     = [AxiosError None, AxiosError None]
   \<and> reported (emitted (polling_session [OnError failing])
       (fst (listAgents (polling_session [OnError failing]) (Inl (AxiosError (Some 503))))))
     = [AxiosError (Some 503), Error ''handler failed'']"
proof -
  have p: "errorCallback (polling_session [OnError quiet]) = Some quiet"
    by (simp add: polling_eval)
  have q: "errorCallback push_client = Some quiet"
    by (simp add: push_eval)
  have f: "errorCallback (polling_session [OnError failing]) = Some failing"
    by (simp add: polling_eval)
  have qf: "errorCallback (onError failing push_client) = Some failing"
    by (simp add: onError_def)
  have r: "\<And>e. rethrown quiet e = e" "\<And>e. rethrown failing e = Error ''handler failed''"
    by (simp_all add: rethrown_def quiet_def failing_def)
  show ?thesis
    using unary_failure_reported_twice [OF p p q,
            where e = "AxiosError (Some 500)" and to = "''0xB0B''" and body = "''hello''"
              and options = None]
          unary_failure_reported_twice [OF p p q, where e = "AxiosError None" and since = "Some 5"]
          unary_failure_reported_twice [OF f f qf, where e = "AxiosError (Some 503)"]
          r
    by (simp add: double_report_def)
qed

section \<open>The \<^verbatim>\<open>since\<close> parameter of the polling client\<close>

lemma polling_getMessages_requests:
  "requests (emitted p (fst (polling_getMessages p since resp)))
     = [GET_messages (privateKey (config p)) (since_or since (lastMessageTimestamp p))]"
proof (cases resp)
  case (Inr ms)
  then show ?thesis by (simp add: polling_getMessages_ok emitted_def)
next
  case (Inl e)
  show ?thesis
  proof (cases "errorCallback p")
    case None
    with Inl show ?thesis
      unfolding polling_getMessages_def by (simp add: try_request_failed_silent emitted_def)
  next
    case (Some h)
    with Inl show ?thesis
      unfolding polling_getMessages_def by (simp add: try_request_failed emitted_def)
  qed
qed

text \<open>
  Claim C10. \<^verbatim>\<open>getMessages\<close> of the polling client, called with \<^verbatim>\<open>since\<close> omitted or equal
  to 0, asks the server for the messages since the current watermark, not since 0; a
  nonzero \<^verbatim>\<open>since\<close> is sent as it is.
\<close>

theorem getMessages_falsy_since_uses_watermark:
  "(since = None \<or> since = Some 0 \<longrightarrow>
      requests (emitted p (fst (polling_getMessages p since resp)))
        = [GET_messages (privateKey (config p)) (lastMessageTimestamp p)])
   \<and> (since = Some t \<and> t \<noteq> 0 \<longrightarrow>
      requests (emitted p (fst (polling_getMessages p since resp)))
        = [GET_messages (privateKey (config p)) t])"
  by (auto simp: polling_getMessages_requests since_or_def)

theorem getMessages_falsy_since_uses_watermark_witness:
  "lastMessageTimestamp
     (polling_session [OnMessage quiet, Start (Inr ()), Tick 1 (Inr [demo_message 200])]) = 200
   \<and> requests (emitted
        (polling_session [OnMessage quiet, Start (Inr ()), Tick 1 (Inr [demo_message 200])])
        (fst (polling_getMessages
               (polling_session [OnMessage quiet, Start (Inr ()), Tick 1 (Inr [demo_message 200])])
               (Some 0) (Inr []))))
      = [GET_messages ''0xA11CE'' 200]
   \<and> requests (emitted
        (polling_session [OnMessage quiet, Start (Inr ()), Tick 1 (Inr [demo_message 200])])
        (fst (polling_getMessages
               (polling_session [OnMessage quiet, Start (Inr ()), Tick 1 (Inr [demo_message 200])])
               (Some 7) (Inr []))))
      = [GET_messages ''0xA11CE'' 7]"
proof -
  have w: "lastMessageTimestamp
     (polling_session [OnMessage quiet, Start (Inr ()), Tick 1 (Inr [demo_message 200])]) = 200"
    by (simp add: polling_eval)
  have k: "privateKey (config
     (polling_session [OnMessage quiet, Start (Inr ()), Tick 1 (Inr [demo_message 200])]))
     = ''0xA11CE''"
    by (simp add: polling_eval)
  show ?thesis
    using getMessages_falsy_since_uses_watermark
            [of "Some 0" "polling_session [OnMessage quiet, Start (Inr ()), Tick 1 (Inr [demo_message 200])]"
                "Inr []" 7]
          getMessages_falsy_since_uses_watermark
            [of "Some 7" "polling_session [OnMessage quiet, Start (Inr ()), Tick 1 (Inr [demo_message 200])]"
                "Inr []" 7]
          w k
    by simp
qed

section \<open>Registration\<close>

lemma registerAgent_conflict_registered:
  assumes "errorCallback s = Some h"
  shows "registerAgent s (Inl (AxiosError (Some 409))) =
     (s\<lparr>trace := trace s @ [Http (POST_agents_register (privateKey (config s))
                                   (agentName (config s))),
                             ErrorCb (AxiosError (Some 409))]\<rparr>,
      if isAxiosError (rethrown h (AxiosError (Some 409)))
         \<and> response_status (rethrown h (AxiosError (Some 409))) = Some 409
      then Inr () else Inl (rethrown h (AxiosError (Some 409))))"
  using assms by (simp add: registerAgent_def api_request_failed)

text \<open>
  Claim C5 (amended). When the registration endpoint answers 409, the response interceptor
  hands the 409 to the error handler, if one is registered, before \<^verbatim>\<open>registerAgent\<close> sees
  it. \<^verbatim>\<open>registerAgent\<close> then returns normally when no error handler is registered and when
  the registered one returns on that error; when the handler throws, what it throws takes
  the place of the 409 and \<^verbatim>\<open>registerAgent\<close> rejects with it (unless that is itself an axios
  error of status 409).
\<close>

theorem registerAgent_conflict_is_success:
  "(errorCallback s = None \<longrightarrow> snd (registerAgent s (Inl (AxiosError (Some 409)))) = Inr ())
   \<and> (errorCallback s = Some h \<longrightarrow>
        reported (emitted s (fst (registerAgent s (Inl (AxiosError (Some 409))))))
          = [AxiosError (Some 409)])
   \<and> (errorCallback s = Some h \<and> h (AxiosError (Some 409)) = None \<longrightarrow>
        snd (registerAgent s (Inl (AxiosError (Some 409)))) = Inr ())
   \<and> (errorCallback s = Some h \<and> h (AxiosError (Some 409)) = Some e'
        \<and> \<not> (isAxiosError e' \<and> response_status e' = Some 409) \<longrightarrow>
        snd (registerAgent s (Inl (AxiosError (Some 409)))) = Inl e')"
proof -
  have "errorCallback s = None \<longrightarrow> snd (registerAgent s (Inl (AxiosError (Some 409)))) = Inr ()"
    by (simp add: registerAgent_def api_request_failed_silent)
  moreover have "errorCallback s = Some h \<longrightarrow>
        reported (emitted s (fst (registerAgent s (Inl (AxiosError (Some 409))))))
          = [AxiosError (Some 409)]"
    by (simp add: registerAgent_conflict_registered emitted_def)
  moreover have "errorCallback s = Some h \<and> h (AxiosError (Some 409)) = None \<longrightarrow>
        snd (registerAgent s (Inl (AxiosError (Some 409)))) = Inr ()"
    by (simp add: registerAgent_conflict_registered rethrown_def)
  moreover have "errorCallback s = Some h \<and> h (AxiosError (Some 409)) = Some e'
        \<and> \<not> (isAxiosError e' \<and> response_status e' = Some 409) \<longrightarrow>
        snd (registerAgent s (Inl (AxiosError (Some 409)))) = Inl e'"
    by (auto simp: registerAgent_conflict_registered rethrown_def)
  ultimately show ?thesis by blast
qed

theorem registerAgent_conflict_is_success_witness:
  "snd (registerAgent (new_polling_sdk demo_config) (Inl (AxiosError (Some 409)))) = Inr ()
   \<and> snd (registerAgent push_client (Inl (AxiosError (Some 409)))) = Inr ()
   \<and> reported (emitted push_client (fst (registerAgent push_client (Inl (AxiosError (Some 409))))))
       = [AxiosError (Some 409)]
   \<and> snd (registerAgent (polling_session [OnError failing]) (Inl (AxiosError (Some 409))))
       = Inl (Error ''handler failed'')"
proof -
  have none: "errorCallback (new_polling_sdk demo_config) = None"
    by (simp add: new_polling_sdk_def)
  have some: "errorCallback push_client = Some quiet"
      "(quiet :: error handler) (AxiosError (Some 409)) = None"
    by (simp_all add: push_eval)
  have throws: "errorCallback (polling_session [OnError failing]) = Some failing"
      "(failing :: error handler) (AxiosError (Some 409)) = Some (Error ''handler failed'')"
      "\<not> (isAxiosError (Error ''handler failed'')
          \<and> response_status (Error ''handler failed'') = Some 409)"
    by (simp_all add: polling_eval)
  show ?thesis
    using registerAgent_conflict_is_success
            [of "new_polling_sdk demo_config" quiet "Error ''handler failed''"]
          registerAgent_conflict_is_success [of push_client quiet "Error ''handler failed''"]
          registerAgent_conflict_is_success
            [of "polling_session [OnError failing]" failing "Error ''handler failed''"]
          none some throws
    by simp
qed

text \<open>
  The claim as stated, that \<^verbatim>\<open>registerAgent\<close> never raises on a conflict, fails for a client
  whose registered error handler throws: the interceptor calls it on the 409, and
  \<^verbatim>\<open>registerAgent\<close> rejects with the handler's exception.
\<close>

theorem registerAgent_conflict_is_success_counterexample:
  "errorCallback (polling_session [OnError failing]) = Some failing
   \<and> snd (registerAgent (polling_session [OnError failing]) (Inl (AxiosError (Some 409))))
       = Inl (Error ''handler failed'')"
  by (simp add: polling_eval)

section \<open>A poll cycle that fails\<close>

lemma for_messages_frame:
  "\<exists>evs w. fst (for_messages s ms) = s\<lparr>trace := trace s @ evs, lastMessageTimestamp := w\<rparr>
           \<and> requests evs = []"
proof (induction ms arbitrary: s)
  case Nil
  have "fst (for_messages s []) = s\<lparr>trace := trace s @ [], lastMessageTimestamp := lastMessageTimestamp s\<rparr>
        \<and> requests [] = []"
    by simp
  then show ?case by blast
next
  case (Cons m ms)
  let ?w = "max (lastMessageTimestamp s) (timestamp m)"
  obtain s1 r where lb: "loop_body s m = (s1, r)" by (cases "loop_body s m")
  have "\<exists>evs. s1 = s\<lparr>trace := trace s @ evs, lastMessageTimestamp := ?w\<rparr> \<and> requests evs = []"
  proof (cases "messageCallback s")
    case None
    with lb have "s1 = s\<lparr>trace := trace s @ [WatermarkSet ?w], lastMessageTimestamp := ?w\<rparr>
        \<and> requests [WatermarkSet ?w] = []"
      by (auto simp: loop_body_def Let_def call_messageCallback_def emit_def)
    then show ?thesis by blast
  next
    case (Some cb)
    with lb have "s1 = s\<lparr>trace := trace s @ [WatermarkSet ?w, MessageCb m], lastMessageTimestamp := ?w\<rparr>
        \<and> requests [WatermarkSet ?w, MessageCb m] = []"
      by (auto simp: loop_body_registered)
    then show ?thesis by blast
  qed
  then obtain evs1 where s1: "s1 = s\<lparr>trace := trace s @ evs1, lastMessageTimestamp := ?w\<rparr>"
    and r1: "requests evs1 = []" by blast
  have req_app: "\<And>xs ys. requests (xs @ ys) = requests xs @ requests ys"
  proof -
    fix xs ys :: "event list"
    show "requests (xs @ ys) = requests xs @ requests ys"
      by (induction xs rule: requests.induct) simp_all
  qed
  show ?case
  proof (cases r)
    case None
    obtain evs2 w2 where
      "fst (for_messages s1 ms) = s1\<lparr>trace := trace s1 @ evs2, lastMessageTimestamp := w2\<rparr>"
      and r2: "requests evs2 = []"
      using Cons.IH by blast
    with s1 have "fst (for_messages s1 ms)
        = s\<lparr>trace := trace s @ (evs1 @ evs2), lastMessageTimestamp := w2\<rparr>"
      by simp
    moreover have "requests (evs1 @ evs2) = []" using r1 r2 by (simp add: req_app)
    ultimately show ?thesis using lb None by auto
  next
    case (Some e)
    with lb s1 r1 show ?thesis by auto
  qed
qed


lemma requests_append: "requests (xs @ ys) = requests xs @ requests ys"
  by (induction xs rule: requests.induct) simp_all

lemma interval_callback_failed:
  assumes "errorCallback s = Some f"
  shows "interval_callback s (Inl e) =
     (s\<lparr>trace := trace s @ [Http (GET_messages (privateKey (config s)) (lastMessageTimestamp s)),
                             ErrorCb e, ErrorCb (rethrown f e),
                             ErrorCb (rethrown f (rethrown f e))]\<rparr>,
      f (rethrown f (rethrown f e)))"
proof -
  let ?req = "GET_messages (privateKey (config s)) (lastMessageTimestamp s)"
  let ?s1 = "s\<lparr>trace := trace s @ [Http ?req, ErrorCb e, ErrorCb (rethrown f e)]\<rparr>"
  have "polling_getMessages s None (Inl e) = (?s1, Inl (rethrown f (rethrown f e)))"
    unfolding polling_getMessages_def using assms
    by (simp add: try_request_failed since_or_def)
  then show ?thesis
    using assms by (simp add: interval_callback_def call_errorCallback_def emit_def)
qed

lemma interval_callback_failed_silent:
  assumes "errorCallback s = None"
  shows "interval_callback s (Inl e) =
     (s\<lparr>trace := trace s @ [Http (GET_messages (privateKey (config s)) (lastMessageTimestamp s))]\<rparr>,
      None)"
proof -
  let ?req = "GET_messages (privateKey (config s)) (lastMessageTimestamp s)"
  have "polling_getMessages s None (Inl e) = (s\<lparr>trace := trace s @ [Http ?req]\<rparr>, Inl e)"
    unfolding polling_getMessages_def using assms
    by (simp add: try_request_failed_silent since_or_def)
  then show ?thesis
    using assms by (simp add: interval_callback_def call_errorCallback_def)
qed

lemma interval_callback_frame:
  "\<exists>evs w. fst (interval_callback s resp) =
       s\<lparr>trace := trace s @ Http (GET_messages (privateKey (config s)) (lastMessageTimestamp s)) # evs,
         lastMessageTimestamp := w\<rparr>
     \<and> requests evs = []"
proof (cases resp)
  case (Inl e)
  show ?thesis
  proof (cases "errorCallback s")
    case None
    then have "fst (interval_callback s (Inl e)) =
       s\<lparr>trace := trace s @ Http (GET_messages (privateKey (config s)) (lastMessageTimestamp s)) # [],
         lastMessageTimestamp := lastMessageTimestamp s\<rparr> \<and> requests [] = []"
      by (simp add: interval_callback_failed_silent)
    with Inl show ?thesis by blast
  next
    case (Some f)
    then have "fst (interval_callback s (Inl e)) =
       s\<lparr>trace := trace s @ Http (GET_messages (privateKey (config s)) (lastMessageTimestamp s))
                 # [ErrorCb e, ErrorCb (rethrown f e), ErrorCb (rethrown f (rethrown f e))],
         lastMessageTimestamp := lastMessageTimestamp s\<rparr>
       \<and> requests [ErrorCb e, ErrorCb (rethrown f e), ErrorCb (rethrown f (rethrown f e))] = []"
      by (simp add: interval_callback_failed)
    with Inl show ?thesis by blast
  qed
next
  case (Inr ms)
  let ?req = "GET_messages (privateKey (config s)) (lastMessageTimestamp s)"
  let ?s1 = "s\<lparr>trace := trace s @ [Http ?req]\<rparr>"
  have gm: "polling_getMessages s None (Inr ms) = (?s1, Inr ms)"
    by (simp add: polling_getMessages_ok since_or_def)
  obtain s2 r where fm: "for_messages ?s1 ms = (s2, r)" by (cases "for_messages ?s1 ms")
  obtain evs w where s2: "s2 = ?s1\<lparr>trace := trace ?s1 @ evs, lastMessageTimestamp := w\<rparr>"
    and rq: "requests evs = []"
    using for_messages_frame [of ?s1 ms] fm by auto
  have s2': "s2 = s\<lparr>trace := trace s @ Http ?req # evs, lastMessageTimestamp := w\<rparr>"
    using s2 by simp
  show ?thesis
  proof (cases r)
    case None
    with gm fm Inr have "fst (interval_callback s resp) = s2"
      by (simp add: interval_callback_def)
    with s2' rq show ?thesis by blast
  next
    case (Some e)
    with gm fm Inr have ic: "fst (interval_callback s resp) = fst (call_errorCallback s2 e)"
      by (simp add: interval_callback_def)
    obtain evs' where "fst (call_errorCallback s2 e) = s2\<lparr>trace := trace s2 @ evs'\<rparr>"
      and "requests evs' = []"
    proof (cases "errorCallback s2")
      case None
      then have "fst (call_errorCallback s2 e) = s2\<lparr>trace := trace s2 @ []\<rparr>" "requests [] = []"
        by (simp_all add: call_errorCallback_def)
      then show ?thesis by (rule that)
    next
      case (Some f)
      then have "fst (call_errorCallback s2 e) = s2\<lparr>trace := trace s2 @ [ErrorCb e]\<rparr>"
          "requests [ErrorCb e] = []"
        by (simp_all add: call_errorCallback_def emit_def)
      then show ?thesis by (rule that)
    qed
    with ic s2' rq have "fst (interval_callback s resp) =
        s\<lparr>trace := trace s @ Http ?req # (evs @ evs'), lastMessageTimestamp := w\<rparr>
        \<and> requests (evs @ evs') = []"
      by (simp add: requests_append)
    then show ?thesis by blast
  qed
qed

lemma interval_callback_requests:
  "requests (emitted s (fst (interval_callback s resp)))
     = [GET_messages (privateKey (config s)) (lastMessageTimestamp s)]"
proof -
  obtain evs w where "fst (interval_callback s resp) =
       s\<lparr>trace := trace s @ Http (GET_messages (privateKey (config s)) (lastMessageTimestamp s)) # evs,
         lastMessageTimestamp := w\<rparr>" and "requests evs = []"
    using interval_callback_frame by blast
  then show ?thesis by (simp add: emitted_def)
qed

lemma reported_append: "reported (xs @ ys) = reported xs @ reported ys"
  by (induction xs rule: reported.induct) simp_all

lemma interval_callback_loop_failed:
  assumes "messageCallback s = Some cb" and "first_throw cb ms = Some e"
  shows "interval_callback s (Inr ms) =
     call_errorCallback
       (s\<lparr>trace := trace s @ Http (GET_messages (privateKey (config s)) (lastMessageTimestamp s))
                    # loop_events (lastMessageTimestamp s) (upto_throw cb ms),
          lastMessageTimestamp :=
            fold max (map timestamp (upto_throw cb ms)) (lastMessageTimestamp s)\<rparr>) e"
proof -
  let ?s1 = "s\<lparr>trace := trace s @ [Http (GET_messages (privateKey (config s))
                                     (lastMessageTimestamp s))]\<rparr>"
  have gm: "polling_getMessages s None (Inr ms) = (?s1, Inr ms)"
    by (simp add: polling_getMessages_ok since_or_def)
  have "messageCallback ?s1 = Some cb" using assms(1) by simp
  then have "for_messages ?s1 ms =
     (?s1\<lparr>trace := trace ?s1 @ loop_events (lastMessageTimestamp ?s1) (upto_throw cb ms),
        lastMessageTimestamp := fold max (map timestamp (upto_throw cb ms)) (lastMessageTimestamp ?s1)\<rparr>,
      first_throw cb ms)"
    by (rule for_messages_registered)
  with gm assms(2) show ?thesis
    by (simp add: interval_callback_def)
qed

text \<open>
  Claim C7. A tick of a scheduled interval, whatever happens in its cycle, leaves the
  interval scheduled and \<^verbatim>\<open>pollInterval\<close> as it was and makes exactly one request (no
  retry inside the cycle), and the next tick of that interval, whatever the server answers
  then, makes the request again, from the watermark the cycle left. When the cycle fails,
  because \<^verbatim>\<open>getMessages\<close> rejects with \<open>e\<close> or because the message handler throws \<open>e\<close> in
  the loop, \<open>e\<close> is handed to the error handler when one is registered (three times for a
  rejected request: interceptor, \<^verbatim>\<open>getMessages\<close>, the cycle's own \<^verbatim>\<open>catch\<close>; once for the
  loop), a rejected request leaves the watermark where it was, and nothing escapes the
  cycle except what the error handler itself throws in the cycle's \<^verbatim>\<open>catch\<close> block.
\<close>

theorem failed_poll_cycle_keeps_polling:
  assumes "h \<in> set (timers s)" and "s1 = fst (tick s h resp)"
  shows "h \<in> set (timers s1) \<and> timers s1 = timers s \<and> pollInterval s1 = pollInterval s
       \<and> requests (emitted s s1)
           = [GET_messages (privateKey (config s)) (lastMessageTimestamp s)]
       \<and> requests (emitted s1 (fst (tick s1 h resp')))
           = [GET_messages (privateKey (config s)) (lastMessageTimestamp s1)]
       \<and> (resp = Inl e \<longrightarrow> lastMessageTimestamp s1 = lastMessageTimestamp s)
       \<and> (resp = Inl e \<and> errorCallback s = Some f \<longrightarrow>
            reported (emitted s s1) = [e, rethrown f e, rethrown f (rethrown f e)]
            \<and> snd (tick s h resp) = f (rethrown f (rethrown f e)))
       \<and> (resp = Inl e \<and> errorCallback s = None \<longrightarrow>
            reported (emitted s s1) = [] \<and> snd (tick s h resp) = None)
       \<and> (resp = Inr ms \<and> messageCallback s = Some cb \<and> first_throw cb ms = Some e
            \<and> errorCallback s = Some f \<longrightarrow>
            reported (emitted s s1) = [e] \<and> snd (tick s h resp) = f e)
       \<and> (resp = Inr ms \<and> messageCallback s = Some cb \<and> first_throw cb ms = Some e
            \<and> errorCallback s = None \<longrightarrow>
            reported (emitted s s1) = [] \<and> snd (tick s h resp) = None)"
proof -
  have t: "tick s h resp = interval_callback s resp"
    using assms(1) by (simp add: tick_def)
  then have s1: "s1 = fst (interval_callback s resp)"
    using assms(2) by simp
  obtain evs w where fr: "s1 =
       s\<lparr>trace := trace s @ Http (GET_messages (privateKey (config s)) (lastMessageTimestamp s)) # evs,
         lastMessageTimestamp := w\<rparr>" and rq: "requests evs = []"
    using interval_callback_frame [of s resp] s1 by auto
  have same: "timers s1 = timers s" "pollInterval s1 = pollInterval s" "config s1 = config s"
    using fr by simp_all
  have req: "requests (emitted s s1)
      = [GET_messages (privateKey (config s)) (lastMessageTimestamp s)]"
    using s1 by (simp add: interval_callback_requests)
  have "tick s1 h resp' = interval_callback s1 resp'"
    using assms(1) same by (simp add: tick_def)
  then have nxt: "requests (emitted s1 (fst (tick s1 h resp')))
      = [GET_messages (privateKey (config s)) (lastMessageTimestamp s1)]"
    using same by (simp add: interval_callback_requests)
  have a: "resp = Inl e \<longrightarrow> lastMessageTimestamp s1 = lastMessageTimestamp s"
  proof (cases "errorCallback s")
    case None
    with s1 show ?thesis by (auto simp: interval_callback_failed_silent)
  next
    case (Some g)
    with s1 show ?thesis by (auto simp: interval_callback_failed)
  qed
  have b: "resp = Inl e \<and> errorCallback s = Some f \<longrightarrow>
            reported (emitted s s1) = [e, rethrown f e, rethrown f (rethrown f e)]
            \<and> snd (tick s h resp) = f (rethrown f (rethrown f e))"
    using s1 t by (auto simp: interval_callback_failed emitted_def)
  have c: "resp = Inl e \<and> errorCallback s = None \<longrightarrow>
            reported (emitted s s1) = [] \<and> snd (tick s h resp) = None"
    using s1 t by (auto simp: interval_callback_failed_silent emitted_def)
  have d: "resp = Inr ms \<and> messageCallback s = Some cb \<and> first_throw cb ms = Some e
            \<and> errorCallback s = Some f \<longrightarrow>
            reported (emitted s s1) = [e] \<and> snd (tick s h resp) = f e"
    using s1 t
    by (auto simp: interval_callback_loop_failed call_errorCallback_def emitted_def
          reported_append reported_loop_events)
  have e: "resp = Inr ms \<and> messageCallback s = Some cb \<and> first_throw cb ms = Some e
            \<and> errorCallback s = None \<longrightarrow>
            reported (emitted s s1) = [] \<and> snd (tick s h resp) = None"
    using s1 t
    by (auto simp: interval_callback_loop_failed call_errorCallback_def emitted_def
          reported_append reported_loop_events)
  show ?thesis
    using assms(1) same req nxt a b c d e by simp
qed

theorem failed_poll_cycle_keeps_polling_witness:
  "1 \<in> set (timers (polling_session [OnError quiet, Start (Inr ())]))
   \<and> pollInterval (polling_session [OnError quiet, Start (Inr ()),
                                    Tick 1 (Inl (AxiosError (Some 500)))]) = Some 1
   \<and> timers (polling_session [OnError quiet, Start (Inr ()),
                              Tick 1 (Inl (AxiosError (Some 500)))]) = [1]
   \<and> reported (emitted
         (polling_session [OnError quiet, Start (Inr ())])
         (polling_session [OnError quiet, Start (Inr ()), Tick 1 (Inl (AxiosError (Some 500)))]))
       = [AxiosError (Some 500), AxiosError (Some 500), AxiosError (Some 500)]
   \<and> snd (tick (polling_session [OnError quiet, Start (Inr ())]) 1 (Inl (AxiosError (Some 500))))
       = None
   \<and> requests (emitted
         (polling_session [OnError quiet, Start (Inr ())])
         (polling_session [OnError quiet, Start (Inr ()), Tick 1 (Inl (AxiosError (Some 500)))]))
       = [GET_messages ''0xA11CE'' 0]
   \<and> requests (emitted
         (polling_session [OnError quiet, Start (Inr ()), Tick 1 (Inl (AxiosError (Some 500)))])
         (fst (tick (polling_session [OnError quiet, Start (Inr ()),
                                      Tick 1 (Inl (AxiosError (Some 500)))])
                 1 (Inr [demo_message 100]))))
       = [GET_messages ''0xA11CE'' 0]
   \<and> reported (emitted
         (polling_session [Start (Inr ())])
         (polling_session [Start (Inr ()), Tick 1 (Inl (AxiosError None))])) = []
   \<and> snd (tick (polling_session [Start (Inr ())]) 1 (Inl (AxiosError None))) = None
   \<and> first_throw failing [demo_message 100, demo_message 200] = Some (Error ''handler failed'')
   \<and> reported (emitted
         (polling_session [OnMessage failing, OnError quiet, Start (Inr ())])
         (polling_session [OnMessage failing, OnError quiet, Start (Inr ()),
                           Tick 1 (Inr [demo_message 100, demo_message 200])]))
       = [Error ''handler failed'']
   \<and> snd (tick (polling_session [OnMessage failing, OnError quiet, Start (Inr ())]) 1
              (Inr [demo_message 100, demo_message 200])) = None
   \<and> timers (polling_session [OnMessage failing, OnError quiet, Start (Inr ()),
                              Tick 1 (Inr [demo_message 100, demo_message 200])]) = [1]
   \<and> requests (emitted
         (polling_session [OnMessage failing, OnError quiet, Start (Inr ()),
                           Tick 1 (Inr [demo_message 100, demo_message 200])])
         (fst (tick (polling_session [OnMessage failing, OnError quiet, Start (Inr ()),
                                      Tick 1 (Inr [demo_message 100, demo_message 200])])
                 1 (Inr []))))
       = [GET_messages ''0xA11CE'' 100]
   \<and> reported (emitted
         (polling_session [OnMessage failing, Start (Inr ())])
         (polling_session [OnMessage failing, Start (Inr ()),
                           Tick 1 (Inr [demo_message 100, demo_message 200])])) = []
   \<and> snd (tick (polling_session [OnMessage failing, Start (Inr ())]) 1
              (Inr [demo_message 100, demo_message 200])) = None"
proof -
  have step: "\<And>acts r. polling_session (acts @ [Tick 1 r]) = fst (tick (polling_session acts) 1 r)"
    by (simp add: polling_session_def run_def)
  have step1: "polling_session [OnError quiet, Start (Inr ()), Tick 1 (Inl (AxiosError (Some 500)))]
      = fst (tick (polling_session [OnError quiet, Start (Inr ())]) 1 (Inl (AxiosError (Some 500))))"
    using step [of "[OnError quiet, Start (Inr ())]"] by simp
  have step2: "polling_session [Start (Inr ()), Tick 1 (Inl (AxiosError None))]
      = fst (tick (polling_session [Start (Inr ())]) 1 (Inl (AxiosError None)))"
    using step [of "[Start (Inr ())]"] by simp
  have step3: "polling_session [OnMessage failing, OnError quiet, Start (Inr ()),
                           Tick 1 (Inr [demo_message 100, demo_message 200])]
      = fst (tick (polling_session [OnMessage failing, OnError quiet, Start (Inr ())]) 1
               (Inr [demo_message 100, demo_message 200]))"
    using step [of "[OnMessage failing, OnError quiet, Start (Inr ())]"] by simp
  have step4: "polling_session [OnMessage failing, Start (Inr ()),
                           Tick 1 (Inr [demo_message 100, demo_message 200])]
      = fst (tick (polling_session [OnMessage failing, Start (Inr ())]) 1
               (Inr [demo_message 100, demo_message 200]))"
    using step [of "[OnMessage failing, Start (Inr ())]"] by simp
  have a1: "1 \<in> set (timers (polling_session [OnError quiet, Start (Inr ())]))"
    and a2: "1 \<in> set (timers (polling_session [Start (Inr ())]))"
    and a3: "1 \<in> set (timers (polling_session [OnMessage failing, OnError quiet, Start (Inr ())]))"
    and a4: "1 \<in> set (timers (polling_session [OnMessage failing, Start (Inr ())]))"
    by (simp_all add: polling_eval)
  have s1: "errorCallback (polling_session [OnError quiet, Start (Inr ())]) = Some quiet"
      "pollInterval (polling_session [OnError quiet, Start (Inr ())]) = Some 1"
      "timers (polling_session [OnError quiet, Start (Inr ())]) = [1]"
      "privateKey (config (polling_session [OnError quiet, Start (Inr ())])) = ''0xA11CE''"
      "lastMessageTimestamp (polling_session [OnError quiet, Start (Inr ())]) = 0"
    by (simp_all add: polling_eval)
  have s2: "errorCallback (polling_session [Start (Inr ())]) = None"
    by (simp add: polling_eval)
  have s3: "errorCallback (polling_session [OnMessage failing, OnError quiet, Start (Inr ())])
        = Some quiet"
      "messageCallback (polling_session [OnMessage failing, OnError quiet, Start (Inr ())])
        = Some failing"
      "timers (polling_session [OnMessage failing, OnError quiet, Start (Inr ())]) = [1]"
      "privateKey (config (polling_session [OnMessage failing, OnError quiet, Start (Inr ())]))
        = ''0xA11CE''"
    by (simp_all add: polling_eval)
  have w3: "lastMessageTimestamp (polling_session [OnMessage failing, OnError quiet, Start (Inr ()),
                           Tick 1 (Inr [demo_message 100, demo_message 200])]) = 100"
    by (simp add: polling_eval)
  have s4: "errorCallback (polling_session [OnMessage failing, Start (Inr ())]) = None"
      "messageCallback (polling_session [OnMessage failing, Start (Inr ())]) = Some failing"
    by (simp_all add: polling_eval)
  have thr: "first_throw failing [demo_message 100, demo_message 200]
      = Some (Error ''handler failed'')"
    by (simp add: failing_def)
  have q: "\<And>e. rethrown quiet e = e" "\<And>e. (quiet :: error handler) e = None"
    by (simp_all add: rethrown_def quiet_def)
  show ?thesis
    using failed_poll_cycle_keeps_polling [OF a1 step1,
            where f = quiet and e = "AxiosError (Some 500)" and resp' = "Inr [demo_message 100]"]
          failed_poll_cycle_keeps_polling [OF a2 step2, where e = "AxiosError None"]
          failed_poll_cycle_keeps_polling [OF a3 step3,
            where f = quiet and cb = failing and e = "Error ''handler failed''"
              and ms = "[demo_message 100, demo_message 200]" and resp' = "Inr []"]
          failed_poll_cycle_keeps_polling [OF a4 step4,
            where cb = failing and e = "Error ''handler failed''"
              and ms = "[demo_message 100, demo_message 200]"]
          s1 s2 s3 w3 s4 thr q
    by simp
qed

section \<open>\<^verbatim>\<open>start\<close> when registration fails\<close>

lemma polling_start_failed:
  assumes "registerAgent p resp = (p1, Inl e)"
  shows "isl (snd (polling_start p resp))
       \<and> pollInterval (fst (polling_start p resp)) = pollInterval p
       \<and> timers (fst (polling_start p resp)) = timers p"
proof -
  obtain evs where p1: "p1 = p\<lparr>trace := trace p @ evs\<rparr>"
    using registerAgent_frame [of p resp] assms by auto
  obtain evs' where "fst (call_errorCallback p1 e) = p1\<lparr>trace := trace p1 @ evs'\<rparr>"
    using call_errorCallback_frame by blast
  with p1 have "fst (call_errorCallback p1 e) = p\<lparr>trace := trace p @ (evs @ evs')\<rparr>"
    by simp
  moreover have "polling_start p resp = report_and_rethrow p1 e"
    using assms by (simp add: polling_start_def)
  moreover have "isl (snd (report_and_rethrow p1 e :: polling_sdk \<times> (error + unit)))"
    by (simp add: report_and_rethrow_def split: prod.splits option.splits)
  ultimately show ?thesis
    by (simp add: report_and_rethrow_fst)
qed

lemma push_start_failed:
  assumes "registerAgent q resp = (q1, Inl e)"
  shows "isl (snd (push_start valid_url now q resp))
       \<and> eventSource (fst (push_start valid_url now q resp)) = eventSource q
       \<and> streams (fst (push_start valid_url now q resp)) = streams q"
proof -
  obtain evs where q1: "q1 = q\<lparr>trace := trace q @ evs\<rparr>"
    using registerAgent_frame [of q resp] assms by auto
  have body: "push_start_body valid_url now q resp = (q1, Inl e)"
    using assms by (simp add: push_start_body_def)
  show ?thesis
  proof (cases "instanceof_Error e")
    case False
    with body have "push_start valid_url now q resp = (q1, Inl e)"
      by (simp add: push_start_def)
    with q1 show ?thesis by simp
  next
    case True
    obtain evs' where "fst (call_errorCallback q1 e) = q1\<lparr>trace := trace q1 @ evs'\<rparr>"
      using call_errorCallback_frame by blast
    with q1 have "fst (call_errorCallback q1 e) = q\<lparr>trace := trace q @ (evs @ evs')\<rparr>"
      by simp
    moreover have "push_start valid_url now q resp = report_and_rethrow q1 e"
      using body True by (simp add: push_start_def)
    moreover have "isl (snd (report_and_rethrow q1 e :: push_sdk \<times> (error + unit)))"
      by (simp add: report_and_rethrow_def split: prod.splits option.splits)
    ultimately show ?thesis
      by (simp add: report_and_rethrow_fst)
  qed
qed

text \<open>
  Claim C8. When \<^verbatim>\<open>registerAgent\<close> fails (it swallows the conflict, so this is any other
  failure), \<^verbatim>\<open>start\<close> rejects and acquires nothing. In the polling client \<^verbatim>\<open>pollInterval\<close> is
  what it was, so \<^verbatim>\<open>null\<close> stays \<^verbatim>\<open>null\<close>, and no interval has been scheduled; in the push
  client \<^verbatim>\<open>eventSource\<close> is what it was and no stream has been opened.
\<close>

theorem start_leaves_nothing_on_registration_failure:
  "(isl (snd (registerAgent p resp)) \<longrightarrow>
      isl (snd (polling_start p resp))
      \<and> pollInterval (fst (polling_start p resp)) = pollInterval p
      \<and> timers (fst (polling_start p resp)) = timers p)
   \<and> (isl (snd (registerAgent q resp)) \<longrightarrow>
      isl (snd (push_start valid_url now q resp))
      \<and> eventSource (fst (push_start valid_url now q resp)) = eventSource q
      \<and> streams (fst (push_start valid_url now q resp)) = streams q)"
proof -
  have "\<And>s :: polling_sdk. isl (snd (registerAgent s resp))
      \<Longrightarrow> \<exists>s1 e. registerAgent s resp = (s1, Inl e)"
    by (metis isl_def prod.collapse)
  moreover have "\<And>s :: push_sdk. isl (snd (registerAgent s resp))
      \<Longrightarrow> \<exists>s1 e. registerAgent s resp = (s1, Inl e)"
    by (metis isl_def prod.collapse)
  ultimately show ?thesis
    using polling_start_failed push_start_failed by blast
qed

theorem start_leaves_nothing_on_registration_failure_witness:
  "isl (snd (registerAgent (new_polling_sdk demo_config) (Inl (AxiosError (Some 500)))))
   \<and> isl (snd (polling_start (new_polling_sdk demo_config) (Inl (AxiosError (Some 500)))))
   \<and> pollInterval (fst (polling_start (new_polling_sdk demo_config) (Inl (AxiosError (Some 500)))))
       = None
   \<and> timers (fst (polling_start (new_polling_sdk demo_config) (Inl (AxiosError (Some 500))))) = []
   \<and> isl (snd (registerAgent push_client (Inl (AxiosError (Some 500)))))
   \<and> isl (snd (push_start any_url ''1700000000000'' push_client (Inl (AxiosError (Some 500)))))
   \<and> eventSource (fst (push_start any_url ''1700000000000'' push_client
                          (Inl (AxiosError (Some 500))))) = None
   \<and> streams (fst (push_start any_url ''1700000000000'' push_client
                      (Inl (AxiosError (Some 500))))) = []"
proof -
  have fails: "isl (snd (registerAgent (new_polling_sdk demo_config) (Inl (AxiosError (Some 500)))))"
      "isl (snd (registerAgent push_client (Inl (AxiosError (Some 500)))))"
    by (simp_all add: polling_eval push_eval)
  have before: "pollInterval (new_polling_sdk demo_config) = None"
      "timers (new_polling_sdk demo_config) = []"
      "eventSource push_client = None" "streams push_client = []"
    by (simp_all add: polling_eval push_eval)
  show ?thesis
    using start_leaves_nothing_on_registration_failure
            [of "new_polling_sdk demo_config" "Inl (AxiosError (Some 500))" push_client
                any_url "''1700000000000''"]
          fails before
    by simp
qed

section \<open>Filtering in the push client\<close>

lemma message_listener_catch_delivered:
  "\<exists>evs. trace (fst (message_listener_catch q e)) = trace q @ evs \<and> delivered evs = []"
proof -
  have "\<And>e'. \<exists>evs. trace (fst (call_errorCallback q e')) = trace q @ evs \<and> delivered evs = []"
  proof -
    fix e'
    show "\<exists>evs. trace (fst (call_errorCallback q e')) = trace q @ evs \<and> delivered evs = []"
    proof (cases "errorCallback q")
      case None
      then have "trace (fst (call_errorCallback q e')) = trace q @ [] \<and> delivered [] = []"
        by (simp add: call_errorCallback_def)
      then show ?thesis by blast
    next
      case (Some f)
      then have "trace (fst (call_errorCallback q e')) = trace q @ [ErrorCb e']
          \<and> delivered [ErrorCb e'] = []"
        by (simp add: call_errorCallback_def)
      then show ?thesis by blast
    qed
  qed
  then show ?thesis by (simp add: message_listener_catch_def)
qed

text \<open>
  Claim C4 (amended). For an inbound event whose data parses as the message \<open>m\<close>: when the
  recipient of \<open>m\<close> differs from the configured private key, the listener does nothing at
  all; when the configured private key is empty, it does nothing at all either, whatever
  the recipient; when the recipient equals the configured private key, that key is not
  empty and a message handler is registered, the handler is called on \<open>m\<close>, once.
\<close>

theorem push_filter_by_recipient:
  assumes "parse d = Inr m"
  shows "(toAgentId m \<noteq> privateKey (config q) \<longrightarrow> message_listener parse q d = (q, None))
       \<and> (privateKey (config q) = [] \<longrightarrow> message_listener parse q d = (q, None))
       \<and> (toAgentId m = privateKey (config q) \<and> privateKey (config q) \<noteq> []
            \<and> messageCallback q = Some cb \<longrightarrow>
          delivered (emitted q (fst (message_listener parse q d))) = [m])"
proof -
  have "delivered (emitted q (fst (message_listener parse q d))) = [m]"
    if match: "toAgentId m = privateKey (config q)" and key: "privateKey (config q) \<noteq> []"
      and reg: "messageCallback q = Some cb"
  proof (cases "cb m")
    case None
    with assms match key reg have "fst (message_listener parse q d) = emit (MessageCb m) q"
      by (simp add: message_listener_def call_messageCallback_def)
    then show ?thesis by (simp add: emitted_def)
  next
    case (Some e)
    with assms match key reg have ml: "fst (message_listener parse q d)
        = fst (message_listener_catch (emit (MessageCb m) q) e)"
      by (simp add: message_listener_def call_messageCallback_def)
    obtain evs where "trace (fst (message_listener_catch (emit (MessageCb m) q) e))
        = trace (emit (MessageCb m) q) @ evs" and "delivered evs = []"
      using message_listener_catch_delivered by blast
    with ml show ?thesis by (simp add: emitted_def)
  qed
  moreover have "toAgentId m \<noteq> privateKey (config q) \<longrightarrow> message_listener parse q d = (q, None)"
    using assms by (simp add: message_listener_def)
  moreover have "privateKey (config q) = [] \<longrightarrow> message_listener parse q d = (q, None)"
    using assms by (simp add: message_listener_def)
  ultimately show ?thesis by blast
qed

theorem push_filter_by_recipient_witness:
  "demo_parse ''for bob'' = Inr ((demo_message 100)\<lparr>toAgentId := ''0xB0B''\<rparr>)
   \<and> message_listener demo_parse push_client ''for bob'' = (push_client, None)
   \<and> demo_parse ''for alice'' = Inr (demo_message 100)
   \<and> toAgentId (demo_message 100) = privateKey (config push_client)
   \<and> delivered (emitted push_client (fst (message_listener demo_parse push_client ''for alice'')))
       = [demo_message 100]
   \<and> privateKey (config (onMessage quiet (new_push_sdk keyless_config))) = []
   \<and> message_listener demo_parse (onMessage quiet (new_push_sdk keyless_config)) ''for alice''
       = (onMessage quiet (new_push_sdk keyless_config), None)"
proof -
  have bob: "demo_parse ''for bob'' = Inr ((demo_message 100)\<lparr>toAgentId := ''0xB0B''\<rparr>)"
    by (simp add: demo_parse_def)
  have alice: "demo_parse ''for alice'' = Inr (demo_message 100)"
    by (simp add: demo_parse_def)
  have client: "privateKey (config push_client) = ''0xA11CE''"
      "messageCallback push_client = Some quiet"
    by (simp_all add: push_eval)
  have keyless: "privateKey (config (onMessage quiet (new_push_sdk keyless_config))) = []"
    by (simp add: push_eval keyless_config_def)
  show ?thesis
    using push_filter_by_recipient
            [where parse = demo_parse and d = "''for bob''" and q = push_client and cb = quiet,
             OF bob]
          push_filter_by_recipient
            [where parse = demo_parse and d = "''for alice''" and q = push_client and cb = quiet,
             OF alice]
          push_filter_by_recipient
            [where parse = demo_parse and d = "''for alice''"
               and q = "onMessage quiet (new_push_sdk keyless_config)" and cb = quiet,
             OF alice]
          bob alice client keyless
    by (simp add: demo_message_def)
qed

text \<open>
  The claim as stated fails for a client configured with an empty private key: the
  listener's guard \<^verbatim>\<open>this.config.privateKey &&\<close> is false, so a message whose recipient
  equals the configured key is not handed to the registered handler.
\<close>

theorem push_filter_by_recipient_counterexample:
  "demo_parse ''for nobody'' = Inr ((demo_message 100)\<lparr>toAgentId := []\<rparr>)
   \<and> toAgentId ((demo_message 100)\<lparr>toAgentId := []\<rparr>)
       = privateKey (config (onMessage quiet (new_push_sdk keyless_config)))
   \<and> messageCallback (onMessage quiet (new_push_sdk keyless_config)) = Some quiet
   \<and> delivered (emitted (onMessage quiet (new_push_sdk keyless_config))
        (fst (message_listener demo_parse (onMessage quiet (new_push_sdk keyless_config))
                ''for nobody''))) = []"
  by (simp add: push_eval listener_eval)

end
